theory Spec2Isabelle
  imports Main "HOL-Library.List_Lexorder" "HOL-Library.Char_ord"
begin

section \<open>Strings\<close>

text \<open>
  JavaScript strings are modelled as \<^typ>\<open>string\<close>, over the ASCII characters:
  \<open>toLowerCase\<close> maps the letters A..Z to a..z and leaves every other character alone.
\<close>

definition toLowerCase_char :: "char \<Rightarrow> char" where
  "toLowerCase_char c =
     (case map_of (zip ''ABCDEFGHIJKLMNOPQRSTUVWXYZ'' ''abcdefghijklmnopqrstuvwxyz'') c of
        Some d \<Rightarrow> d
      | None \<Rightarrow> c)"

definition toLowerCase :: "string \<Rightarrow> string" where
  "toLowerCase s = map toLowerCase_char s"

text \<open>\<open>s.startsWith(p)\<close> and \<open>s.includes(p)\<close> on strings.\<close>

fun startsWith :: "string \<Rightarrow> string \<Rightarrow> bool" where
  "startsWith s [] = True"
| "startsWith [] (p # ps) = False"
| "startsWith (c # cs) (p # ps) = (c = p \<and> startsWith cs ps)"

fun includes_str :: "string \<Rightarrow> string \<Rightarrow> bool" where
  "includes_str [] p = (p = [])"
| "includes_str (c # cs) p = (startsWith (c # cs) p \<or> includes_str cs p)"

text \<open>
  The truthiness of an optional string: \<open>undefined\<close> and the empty string are falsy.
  \<open>a || b\<close> on optional strings is \<open>orElse a b\<close>.
\<close>

fun truthy :: "string option \<Rightarrow> bool" where
  "truthy None = False"
| "truthy (Some s) = (s \<noteq> [])"

definition orElse :: "string option \<Rightarrow> string option \<Rightarrow> string option" where
  "orElse a b = (if truthy a then a else b)"

text \<open>\<open>xs.findIndex(p)\<close>; JavaScript's \<open>-1\<close> is \<open>None\<close>.\<close>

fun findIndex :: "('a \<Rightarrow> bool) \<Rightarrow> 'a list \<Rightarrow> nat option" where
  "findIndex p [] = None"
| "findIndex p (x # xs) =
     (if p x then Some 0 else map_option Suc (findIndex p xs))"

text \<open>\<open>xs.splice(i, 1)\<close> for an index inside the list: what remains of \<open>xs\<close>.\<close>

definition splice1 :: "nat \<Rightarrow> 'a list \<Rightarrow> 'a list" where
  "splice1 i xs = take i xs @ drop (Suc i) xs"

text \<open>Decimal rendering of a number in a template string.\<close>

fun digitsOf :: "nat \<Rightarrow> string" where
  "digitsOf n =
     (if n < 10 then [''0123456789'' ! n]
      else digitsOf (n div 10) @ [''0123456789'' ! (n mod 10)])"

definition showInt :: "int \<Rightarrow> string" where
  "showInt i = (if i < 0 then CHR ''-'' # digitsOf (nat (- i)) else digitsOf (nat i))"

text \<open>\<open>parts.join(sep)\<close>.\<close>

fun join :: "string \<Rightarrow> string list \<Rightarrow> string" where
  "join sep [] = []"
| "join sep [x] = x"
| "join sep (x # y # ys) = x @ sep @ join sep (y # ys)"

section \<open>Data model\<close>

text \<open>
  Timestamps are the epoch milliseconds that \<open>new Date().toISOString()\<close> renders;
  the rendering itself is not modelled. The readings of the clock that one call makes
  are passed to it as a \<open>clock\<close>.
\<close>

record clock =
  now_ms :: int
  date_string :: string
  year_month :: string

definition getTimestamp :: "clock \<Rightarrow> int" where
  "getTimestamp clk = now_ms clk"

definition getDateString :: "clock \<Rightarrow> string" where
  "getDateString clk = date_string clk"

definition getCurrentYearMonth :: "clock \<Rightarrow> string" where
  "getCurrentYearMonth clk = year_month clk"

subsection \<open>Brand\<close>

record business_info =
  industry :: string
  product :: string
  model :: string
  priceRange :: "string option"
  usp :: string

record audience_segment =
  description :: string
  role :: "string option"
  companySize :: "string option"

record audience_info =
  primary :: audience_segment
  secondary :: "audience_segment option"
  geo :: "string list"
  painPoints :: "string list"

record competitor =
  domain :: string
  c_name :: "string option"
  c_notes :: "string option"
  yourAngle :: "string option"

record api_accounts =
  googleAds_account :: "string option"
  metaAds_account :: "string option"
  gscProperty :: "string option"
  ga4Property :: "string option"
  ahrefsProject :: "string option"
  semrushProject :: "string option"

record channel_investment =
  active :: bool
  budget :: "string option"
  duration :: "string option"
  performance :: "string option"
  ci_notes :: "string option"

record marketing_investments =
  googleAds :: "channel_investment option"
  metaAds :: "channel_investment option"
  seo :: "channel_investment option"
  email :: "channel_investment option"
  social :: "channel_investment option"

record brand_note =
  bn_date :: string
  bn_content :: string

record brand_preferences =
  dataMode :: string
  contactEmail :: "string option"
  timezone :: "string option"

text \<open>The strategy bundle is carried around and never inspected here.\<close>

typedecl strategy

record brand =
  b_id :: string
  b_name :: string
  b_website :: string
  b_created :: string
  b_lastUpdated :: string
  b_lastSession :: "string option"
  b_business :: business_info
  b_audience :: audience_info
  b_competitors :: "competitor list"
  b_accounts :: api_accounts
  b_currentInvestments :: marketing_investments
  b_strategy :: "strategy option"
  b_notes :: "brand_note list"
  b_preferences :: brand_preferences

text \<open>
  \<open>Partial<Brand>\<close>: every field may be missing (\<open>None\<close>). A key that is there with
  the value \<open>undefined\<close> is taken as a missing key.
\<close>

record brand_updates =
  u_id :: "string option"
  u_name :: "string option"
  u_website :: "string option"
  u_created :: "string option"
  u_lastUpdated :: "string option"
  u_lastSession :: "string option"
  u_business :: "business_info option"
  u_audience :: "audience_info option"
  u_competitors :: "competitor list option"
  u_accounts :: "api_accounts option"
  u_currentInvestments :: "marketing_investments option"
  u_strategy :: "strategy option"
  u_notes :: "brand_note list option"
  u_preferences :: "brand_preferences option"

record api_config =
  configured :: bool
  api_key :: "string option"

record config =
  defaultDataMode :: string
  showApiNudges :: bool
  exportFormat :: string
  apis :: "string \<rightharpoonup> api_config"
  showConfidenceLevels :: bool
  verboseExplanations :: bool
  autoSuggestNextSteps :: bool
  activeBrand :: "string option"

subsection \<open>Continuity ledger, handoff, learning, history\<close>

record session_task =
  task :: string
  timestamp :: int
  result :: "string option"

record ledger =
  brandId :: string
  brandName :: string
  started :: int
  goal :: "string option"
  completed :: "session_task list"
  inProgress :: "session_task list"
  blockers :: "string list"
  ledger_notes :: "string list"

record handoff_task =
  ht_task :: string
  ht_result :: "string option"
  ht_keyword :: "string option"
  ht_progress :: "string option"
  ht_reason :: "string option"

record prioritized_task =
  priority :: int
  pt_task :: string
  pt_context :: "string option"

record last_session =
  ls_date :: string
  ls_duration :: "string option"
  ls_completed :: "handoff_task list"
  ls_inProgress :: "handoff_task list"
  ls_deferred :: "handoff_task list"

record handoff =
  h_brandId :: string
  h_created :: int
  lastSession :: last_session
  nextSteps :: "prioritized_task list"
  resumePrompt :: string

datatype learning_type =
  what_worked | outcome | user_preference | rejected | pattern | mistake

datatype confidence = high | medium | low

record learning =
  l_id :: string
  l_brand :: string
  l_date :: string
  l_type :: learning_type
  l_category :: string
  l_content :: string
  l_context :: "string option"
  l_confidence :: confidence
  l_metrics :: "(string \<times> string) list option"

typedecl activity

record session =
  s_date :: string
  s_duration :: "string option"
  s_brandId :: string
  s_activities :: "activity list"
  s_notes :: "string list"

record history_file =
  hf_brandId :: string
  hf_yearMonth :: string
  hf_sessions :: "session list"

record session_state =
  ss_brand :: "brand option"
  ss_ledger :: "ledger option"
  ss_handoff :: "handoff option"
  isActive :: bool
  startTime :: "int option"

section \<open>The record store and the module state\<close>

text \<open>
  What the modelled functions throw: the \<open>TypeError\<close> of the runtime, and the errors
  of the brand manager, named after their messages.
\<close>

datatype js_error =
    TypeError
  | BrandAlreadyExists string
  | FailedToSaveBrand
  | BrandNotFound string
  | FailedToUpdateBrand

text \<open>
  One value holds the files under the storage directory and the three module-level
  variables (\<open>currentLedger\<close>, \<open>currentSession\<close>, \<open>sessionState\<close>). A file that is
  missing reads as \<open>None\<close>; a file that is there holds a record that parses.
  \<open>fs_ok\<close> tells whether the file
  system accepts writes and deletions; when it does not, \<open>writeYaml\<close> and
  \<open>deleteFile\<close> catch the error and return \<open>false\<close>. Directories are taken to exist.
\<close>

record world =
  fs_ok :: bool
  brand_files :: "string \<rightharpoonup> brand"
  config_file :: "config option"
  continuity_file :: "ledger option"
  handoff_files :: "string \<rightharpoonup> handoff"
  learnings_file :: "learning list option"
  history_files :: "string \<times> string \<rightharpoonup> history_file"
  currentLedger :: "ledger option"
  currentSession :: "session option"
  sessionState :: session_state

definition writeYaml :: "(world \<Rightarrow> world) \<Rightarrow> world \<Rightarrow> bool \<times> world" where
  "writeYaml store w = (if fs_ok w then (True, store w) else (False, w))"

definition deleteFile :: "bool \<Rightarrow> (world \<Rightarrow> world) \<Rightarrow> world \<Rightarrow> bool \<times> world" where
  "deleteFile existsSync unlink w =
     (if existsSync then (if fs_ok w then (True, unlink w) else (False, w))
      else (True, w))"

section \<open>Continuity ledger (continuity-ledger.ts)\<close>

definition saveLedger :: "world \<Rightarrow> bool \<times> world" where
  "saveLedger w =
     (case currentLedger w of
        None \<Rightarrow> (False, w)
      | Some l \<Rightarrow> writeYaml (\<lambda>v. v\<lparr>continuity_file := Some l\<rparr>) w)"

definition initLedger :: "string \<Rightarrow> string \<Rightarrow> string option \<Rightarrow> clock \<Rightarrow> world \<Rightarrow> ledger \<times> world" where
  "initLedger bid bname g clk w =
     (let l = \<lparr>brandId = bid, brandName = bname, started = getTimestamp clk, goal = g,
                completed = [], inProgress = [], blockers = [], ledger_notes = []\<rparr>
      in (l, snd (saveLedger (w\<lparr>currentLedger := Some l\<rparr>))))"

definition loadLedger :: "world \<Rightarrow> ledger option \<times> world" where
  "loadLedger w =
     (case currentLedger w of
        Some l \<Rightarrow> (Some l, w)
      | None \<Rightarrow>
          (case continuity_file w of
             Some l \<Rightarrow> (Some l, w\<lparr>currentLedger := Some l\<rparr>)
           | None \<Rightarrow> (None, w)))"

definition clearLedger :: "world \<Rightarrow> world" where
  "clearLedger w =
     snd (deleteFile (continuity_file w \<noteq> None) (\<lambda>v. v\<lparr>continuity_file := None\<rparr>)
            (w\<lparr>currentLedger := None\<rparr>))"

definition getLedger :: "world \<Rightarrow> ledger option \<times> world" where
  "getLedger w =
     (case currentLedger w of
        Some l \<Rightarrow> (Some l, w)
      | None \<Rightarrow> loadLedger w)"

text \<open>
  The operations below change the ledger object in place, which is the object
  \<open>currentLedger\<close> refers to, and then call \<open>saveLedger\<close>, whose result they ignore.
\<close>

definition addCompletedTask :: "string \<Rightarrow> string option \<Rightarrow> clock \<Rightarrow> world \<Rightarrow> world" where
  "addCompletedTask t res clk w =
     (case getLedger w of
        (None, w1) \<Rightarrow> w1
      | (Some l, w1) \<Rightarrow>
          (let sessionTask = \<lparr>task = t, timestamp = getTimestamp clk, result = res\<rparr>;
               l1 = l\<lparr>inProgress :=
                        filter (\<lambda>x. toLowerCase (task x) \<noteq> toLowerCase t) (inProgress l)\<rparr>;
               l2 = l1\<lparr>completed := completed l1 @ [sessionTask]\<rparr>
           in snd (saveLedger (w1\<lparr>currentLedger := Some l2\<rparr>))))"

definition addInProgressTask :: "string \<Rightarrow> clock \<Rightarrow> world \<Rightarrow> world" where
  "addInProgressTask t clk w =
     (case getLedger w of
        (None, w1) \<Rightarrow> w1
      | (Some l, w1) \<Rightarrow>
          (if list_ex (\<lambda>x. toLowerCase (task x) = toLowerCase t) (inProgress l) then w1
           else
             (let sessionTask = \<lparr>task = t, timestamp = getTimestamp clk, result = None\<rparr>;
                  l1 = l\<lparr>inProgress := inProgress l @ [sessionTask]\<rparr>
              in snd (saveLedger (w1\<lparr>currentLedger := Some l1\<rparr>)))))"

definition updateTaskProgress :: "string \<Rightarrow> string \<Rightarrow> world \<Rightarrow> world" where
  "updateTaskProgress t res w =
     (case getLedger w of
        (None, w1) \<Rightarrow> w1
      | (Some l, w1) \<Rightarrow>
          (case findIndex (\<lambda>x. toLowerCase (task x) = toLowerCase t) (inProgress l) of
             Some taskIndex \<Rightarrow>
               (let l1 = l\<lparr>inProgress :=
                            (inProgress l)[taskIndex :=
                               (inProgress l ! taskIndex)\<lparr>result := Some res\<rparr>]\<rparr>
                in snd (saveLedger (w1\<lparr>currentLedger := Some l1\<rparr>)))
           | None \<Rightarrow> w1))"

definition completeTask :: "string \<Rightarrow> string option \<Rightarrow> clock \<Rightarrow> world \<Rightarrow> world" where
  "completeTask t res clk w =
     (case getLedger w of
        (None, w1) \<Rightarrow> w1
      | (Some l, w1) \<Rightarrow>
          (case findIndex (\<lambda>x. toLowerCase (task x) = toLowerCase t) (inProgress l) of
             Some taskIndex \<Rightarrow>
               (let completedTask = inProgress l ! taskIndex;
                    l1 = l\<lparr>inProgress := splice1 taskIndex (inProgress l)\<rparr>;
                    completedTask1 = completedTask\<lparr>result := orElse res (result completedTask)\<rparr>;
                    completedTask2 = completedTask1\<lparr>timestamp := getTimestamp clk\<rparr>;
                    l2 = l1\<lparr>completed := completed l1 @ [completedTask2]\<rparr>
                in snd (saveLedger (w1\<lparr>currentLedger := Some l2\<rparr>)))
           | None \<Rightarrow> addCompletedTask t res clk w1))"

definition addBlocker :: "string \<Rightarrow> world \<Rightarrow> world" where
  "addBlocker blocker w =
     (case getLedger w of
        (None, w1) \<Rightarrow> w1
      | (Some l, w1) \<Rightarrow>
          (if blocker \<notin> set (blockers l)
           then snd (saveLedger (w1\<lparr>currentLedger := Some (l\<lparr>blockers := blockers l @ [blocker]\<rparr>)\<rparr>))
           else w1))"

definition removeBlocker :: "string \<Rightarrow> world \<Rightarrow> world" where
  "removeBlocker blocker w =
     (case getLedger w of
        (None, w1) \<Rightarrow> w1
      | (Some l, w1) \<Rightarrow>
          (let l1 = l\<lparr>blockers :=
                       filter (\<lambda>b. toLowerCase b \<noteq> toLowerCase blocker) (blockers l)\<rparr>
           in snd (saveLedger (w1\<lparr>currentLedger := Some l1\<rparr>))))"

definition addLedgerNote :: "string \<Rightarrow> world \<Rightarrow> world" where
  "addLedgerNote note w =
     (case getLedger w of
        (None, w1) \<Rightarrow> w1
      | (Some l, w1) \<Rightarrow>
          (if note \<notin> set (ledger_notes l)
           then snd (saveLedger (w1\<lparr>currentLedger := Some (l\<lparr>ledger_notes := ledger_notes l @ [note]\<rparr>)\<rparr>))
           else w1))"

definition setGoal :: "string \<Rightarrow> world \<Rightarrow> world" where
  "setGoal g w =
     (case getLedger w of
        (None, w1) \<Rightarrow> w1
      | (Some l, w1) \<Rightarrow> snd (saveLedger (w1\<lparr>currentLedger := Some (l\<lparr>goal := Some g\<rparr>)\<rparr>)))"

text \<open>\<open>getSessionSummary\<close>: the elapsed time as text, and the sizes of the four lists.\<close>

record session_summary =
  sum_brandId :: string
  sum_brandName :: string
  sum_duration :: string
  sum_completed :: nat
  sum_inProgress :: nat
  sum_blockers :: nat
  sum_notes :: nat

definition formatDuration :: "int \<Rightarrow> string" where
  "formatDuration durationMs =
     (let minutes = durationMs div 60000
      in if minutes < 60 then showInt minutes @ '' min''
         else showInt (minutes div 60) @ ''h '' @ showInt (minutes mod 60) @ ''m'')"

definition getSessionSummary :: "clock \<Rightarrow> world \<Rightarrow> session_summary option \<times> world" where
  "getSessionSummary clk w =
     (case getLedger w of
        (None, w1) \<Rightarrow> (None, w1)
      | (Some l, w1) \<Rightarrow>
          (Some \<lparr>sum_brandId = brandId l, sum_brandName = brandName l,
                 sum_duration = formatDuration (now_ms clk - started l),
                 sum_completed = length (completed l), sum_inProgress = length (inProgress l),
                 sum_blockers = length (blockers l), sum_notes = length (ledger_notes l)\<rparr>, w1))"

text \<open>
  A call of one of the eight mutating operations, and a run of calls, each with the
  clock it reads.
\<close>

datatype ledger_op =
    AddInProgressTask string
  | AddCompletedTask string "string option"
  | CompleteTask string "string option"
  | UpdateTaskProgress string string
  | AddBlocker string
  | RemoveBlocker string
  | AddLedgerNote string
  | SetGoal string

fun ledger_call :: "ledger_op \<Rightarrow> clock \<Rightarrow> world \<Rightarrow> world" where
  "ledger_call (AddInProgressTask t) clk w = addInProgressTask t clk w"
| "ledger_call (AddCompletedTask t r) clk w = addCompletedTask t r clk w"
| "ledger_call (CompleteTask t r) clk w = completeTask t r clk w"
| "ledger_call (UpdateTaskProgress t r) clk w = updateTaskProgress t r w"
| "ledger_call (AddBlocker b) clk w = addBlocker b w"
| "ledger_call (RemoveBlocker b) clk w = removeBlocker b w"
| "ledger_call (AddLedgerNote n) clk w = addLedgerNote n w"
| "ledger_call (SetGoal g) clk w = setGoal g w"

fun ledger_run :: "(ledger_op \<times> clock) list \<Rightarrow> world \<Rightarrow> world" where
  "ledger_run [] w = w"
| "ledger_run ((c, clk) # cs) w = ledger_run cs (ledger_call c clk w)"

text \<open>
  The task texts that are in both lists of a ledger, compared case-insensitively:
  the in-progress entries that have a completed namesake.
\<close>

definition sameText :: "string \<Rightarrow> session_task \<Rightarrow> bool" where
  "sameText t x = (toLowerCase (task x) = toLowerCase t)"

definition inBoth :: "ledger \<Rightarrow> session_task list" where
  "inBoth l = filter (\<lambda>x. list_ex (sameText (task x)) (completed l)) (inProgress l)"

text \<open>
  A run in which \<open>addInProgressTask\<close> is never called with a text that the completed
  list already has at the time of the call.
\<close>

fun neverReopens :: "(ledger_op \<times> clock) list \<Rightarrow> world \<Rightarrow> bool" where
  "neverReopens [] w = True"
| "neverReopens ((c, clk) # cs) w =
     ((case c of
         AddInProgressTask t \<Rightarrow>
           (case currentLedger w of
              Some l \<Rightarrow> \<not> list_ex (sameText t) (completed l)
            | None \<Rightarrow> True)
       | _ \<Rightarrow> True)
      \<and> neverReopens cs (ledger_call c clk w))"

text \<open>
  The state right after \<open>initializeStorage\<close> has run on an empty storage directory,
  with no session open, and a clock reading, for the examples.
\<close>

definition getDefaultConfig :: config where
  "getDefaultConfig =
     \<lparr>defaultDataMode = ''ask'', showApiNudges = True, exportFormat = ''markdown'',
      apis = Map.empty, showConfidenceLevels = True, verboseExplanations = False,
      autoSuggestNextSteps = True, activeBrand = None\<rparr>"

definition idleSession :: session_state where
  "idleSession =
     \<lparr>ss_brand = None, ss_ledger = None, ss_handoff = None, isActive = False,
      startTime = None\<rparr>"

definition freshWorld :: world where
  "freshWorld =
     \<lparr>fs_ok = True, brand_files = Map.empty, config_file = Some getDefaultConfig,
      continuity_file = None, handoff_files = Map.empty, learnings_file = Some [],
      history_files = Map.empty, currentLedger = None, currentSession = None,
      sessionState = idleSession\<rparr>"

definition clock0 :: clock where
  "clock0 = \<lparr>now_ms = 1700000000000, date_string = ''2023-11-14'', year_month = ''2023-11''\<rparr>"

text \<open>No two in-progress entries have the same text, compared case-insensitively.\<close>

definition ciDistinct :: "ledger \<Rightarrow> bool" where
  "ciDistinct l = distinct (map (\<lambda>x. toLowerCase (task x)) (inProgress l))"

section \<open>Handoffs (handoffs.ts)\<close>

text \<open>
  The two loops of \<open>generateDefaultNextSteps\<close>, which push onto \<open>steps\<close> and count
  \<open>priority\<close> up.
\<close>

fun pushContinue ::
  "session_task list \<Rightarrow> prioritized_task list \<times> int \<Rightarrow> prioritized_task list \<times> int" where
  "pushContinue [] (steps, prio) = (steps, prio)"
| "pushContinue (t # ts) (steps, prio) =
     pushContinue ts
       (steps @ [\<lparr>priority = prio, pt_task = ''Continue: '' @ task t, pt_context = result t\<rparr>],
        prio + 1)"

fun pushResolve ::
  "string list \<Rightarrow> prioritized_task list \<times> int \<Rightarrow> prioritized_task list \<times> int" where
  "pushResolve [] (steps, prio) = (steps, prio)"
| "pushResolve (b # bs) (steps, prio) =
     pushResolve bs
       (steps @ [\<lparr>priority = prio, pt_task = ''Resolve blocker: '' @ b, pt_context = None\<rparr>],
        prio + 1)"

definition generateDefaultNextSteps :: "ledger \<Rightarrow> prioritized_task list" where
  "generateDefaultNextSteps l =
     (let (steps, prio) = pushResolve (blockers l) (pushContinue (inProgress l) ([], 1))
      in case goal l of
           Some g \<Rightarrow>
             (if length steps = 0 \<and> truthy (Some g)
              then steps @ [\<lparr>priority = 1, pt_task = ''Continue working on: '' @ g,
                              pt_context = None\<rparr>]
              else steps)
         | None \<Rightarrow> steps)"

text \<open>\<open>xs.slice(-n)\<close>: the last \<open>n\<close> elements.\<close>

definition sliceLast :: "nat \<Rightarrow> 'a list \<Rightarrow> 'a list" where
  "sliceLast n xs = drop (length xs - n) xs"

definition generateResumePrompt :: "ledger \<Rightarrow> prioritized_task list \<Rightarrow> string" where
  "generateResumePrompt l steps =
     (let parts0 = [''Working with '' @ brandName l @ ''.''];
          parts1 = (case goal l of
                      Some g \<Rightarrow> if truthy (Some g) then parts0 @ [''Goal: '' @ g] else parts0
                    | None \<Rightarrow> parts0);
          parts2 = (if length (completed l) > 0
                    then parts1 @ [''Last session completed: ''
                                   @ join '', '' (map task (sliceLast 3 (completed l)))]
                    else parts1);
          parts3 = (if length (inProgress l) > 0
                    then parts2 @ [''In progress: '' @ join '', '' (map task (inProgress l))]
                    else parts2);
          parts4 = (if length (blockers l) > 0
                    then parts3 @ [''Blockers: '' @ join '', '' (blockers l)]
                    else parts3);
          parts5 = (if length steps > 0
                    then parts4 @ [''Suggested next: '' @ join ''; '' (map pt_task (take 3 steps))]
                    else parts4)
      in join '' '' parts5)"

definition getHandoff :: "string \<Rightarrow> world \<Rightarrow> handoff option" where
  "getHandoff bid w = handoff_files w bid"

definition hasHandoff :: "string \<Rightarrow> world \<Rightarrow> bool" where
  "hasHandoff bid w = (getHandoff bid w \<noteq> None)"

definition clearHandoff :: "string \<Rightarrow> world \<Rightarrow> bool \<times> world" where
  "clearHandoff bid w =
     deleteFile (handoff_files w bid \<noteq> None)
       (\<lambda>v. v\<lparr>handoff_files := (handoff_files v)(bid := None)\<rparr>) w"

definition handoffTask :: "string \<Rightarrow> handoff_task" where
  "handoffTask t =
     \<lparr>ht_task = t, ht_result = None, ht_keyword = None, ht_progress = None, ht_reason = None\<rparr>"

definition createHandoff ::
  "prioritized_task list option \<Rightarrow> string option \<Rightarrow> clock \<Rightarrow> world \<Rightarrow> handoff option \<times> world" where
  "createHandoff nextStepsArg customResumePrompt clk w =
     (case getLedger w of
        (None, w1) \<Rightarrow> (None, w1)
      | (Some l, w1) \<Rightarrow>
          (let (summary, w2) = getSessionSummary clk w1;
               completedTasks = map (\<lambda>t. (handoffTask (task t))\<lparr>ht_result := result t\<rparr>) (completed l);
               inProgressTasks = map (\<lambda>t. (handoffTask (task t))\<lparr>ht_progress := result t\<rparr>) (inProgress l);
               deferred = map (\<lambda>b. (handoffTask b)\<lparr>ht_reason := Some ''Blocked - needs resolution''\<rparr>)
                            (blockers l);
               steps = (case nextStepsArg of Some ns \<Rightarrow> ns | None \<Rightarrow> generateDefaultNextSteps l);
               prompt = (case customResumePrompt of
                           Some p \<Rightarrow> if truthy (Some p) then p else generateResumePrompt l steps
                         | None \<Rightarrow> generateResumePrompt l steps);
               h = \<lparr>h_brandId = brandId l, h_created = getTimestamp clk,
                    lastSession = \<lparr>ls_date = getDateString clk,
                                    ls_duration = map_option sum_duration summary,
                                    ls_completed = completedTasks,
                                    ls_inProgress = inProgressTasks,
                                    ls_deferred = deferred\<rparr>,
                    nextSteps = steps, resumePrompt = prompt\<rparr>;
               (success, w3) =
                  writeYaml (\<lambda>v. v\<lparr>handoff_files := (handoff_files v)(brandId l \<mapsto> h)\<rparr>) w2
           in (if success then Some h else None, w3)))"

text \<open>
  \<open>steps.forEach((step, idx) => { step.priority = idx + 1 })\<close>, counting from \<open>idx\<close>.
\<close>

fun renumber :: "nat \<Rightarrow> prioritized_task list \<Rightarrow> prioritized_task list" where
  "renumber idx [] = []"
| "renumber idx (step # steps) = step\<lparr>priority := int idx + 1\<rparr> # renumber (Suc idx) steps"

definition removeNextStep :: "string \<Rightarrow> int \<Rightarrow> world \<Rightarrow> handoff option \<times> world" where
  "removeNextStep bid taskIndex w =
     (case getHandoff bid w of
        None \<Rightarrow> (None, w)
      | Some h \<Rightarrow>
          (if taskIndex \<ge> 0 \<and> taskIndex < int (length (nextSteps h)) then
             (let h1 = h\<lparr>nextSteps := splice1 (nat taskIndex) (nextSteps h)\<rparr>;
                  h2 = h1\<lparr>nextSteps := renumber 0 (nextSteps h1)\<rparr>;
                  (success, w1) =
                     writeYaml (\<lambda>v. v\<lparr>handoff_files := (handoff_files v)(bid \<mapsto> h2)\<rparr>) w
              in (if success then Some h2 else None, w1))
           else (Some h, w)))"

section \<open>Archival memory (memory.ts)\<close>

definition loadLearnings :: "world \<Rightarrow> learning list" where
  "loadLearnings w = (case learnings_file w of Some ls \<Rightarrow> ls | None \<Rightarrow> [])"

definition saveLearnings :: "learning list \<Rightarrow> world \<Rightarrow> bool \<times> world" where
  "saveLearnings ls w = writeYaml (\<lambda>v. v\<lparr>learnings_file := Some ls\<rparr>) w"

text \<open>
  \<open>storeLearning\<close>; the identifier that \<open>generateUniqueId('learn')\<close> draws from the clock
  and the random generator is passed in.
\<close>

definition storeLearning ::
  "string \<Rightarrow> string \<Rightarrow> learning_type \<Rightarrow> string \<Rightarrow> string \<Rightarrow> string option \<Rightarrow> confidence option
     \<Rightarrow> (string \<times> string) list option \<Rightarrow> clock \<Rightarrow> world \<Rightarrow> learning \<times> world" where
  "storeLearning uid bid ty cat content ctx conf metrics clk w =
     (let learning = \<lparr>l_id = uid, l_brand = bid, l_date = getDateString clk, l_type = ty,
                       l_category = cat, l_content = content, l_context = ctx,
                       l_confidence = (case conf of Some c \<Rightarrow> c | None \<Rightarrow> medium),
                       l_metrics = metrics\<rparr>
      in (learning, snd (saveLearnings (loadLearnings w @ [learning]) w)))"

definition getBrandLearnings :: "string \<Rightarrow> world \<Rightarrow> learning list" where
  "getBrandLearnings bid w =
     filter (\<lambda>l. l_brand l = bid \<or> l_brand l = ''global'') (loadLearnings w)"

record relevance_context =
  rc_activity :: "string option"
  rc_category :: "string option"
  rc_keywords :: "string list option"

text \<open>
  \<open>for (const l of matches) if (!seen.has(l.id)) { relevant.push(l); seen.add(l.id) }\<close>
\<close>

fun pushUnseen ::
  "learning list \<Rightarrow> learning list \<times> string set \<Rightarrow> learning list \<times> string set" where
  "pushUnseen [] (relevant, seen) = (relevant, seen)"
| "pushUnseen (l # ls) (relevant, seen) =
     (if l_id l \<notin> seen then pushUnseen ls (relevant @ [l], insert (l_id l) seen)
      else pushUnseen ls (relevant, seen))"

definition mentions :: "string \<Rightarrow> learning \<Rightarrow> bool" where
  "mentions kw l =
     (includes_str (toLowerCase (l_content l)) kw \<or> includes_str (toLowerCase (l_category l)) kw)"

fun matchKeywords ::
  "string list \<Rightarrow> learning list \<Rightarrow> learning list \<times> string set \<Rightarrow> learning list \<times> string set" where
  "matchKeywords [] brandLearnings (relevant, seen) = (relevant, seen)"
| "matchKeywords (keyword # rest) brandLearnings (relevant, seen) =
     (let lower = toLowerCase keyword;
          keywordMatches = filter (\<lambda>l. l_id l \<notin> seen \<and> mentions lower l) brandLearnings
      in matchKeywords rest brandLearnings (pushUnseen keywordMatches (relevant, seen)))"

fun matchActivityKeywords ::
  "string list \<Rightarrow> learning list \<Rightarrow> learning list \<times> string set \<Rightarrow> learning list \<times> string set" where
  "matchActivityKeywords [] brandLearnings (relevant, seen) = (relevant, seen)"
| "matchActivityKeywords (keyword # rest) brandLearnings (relevant, seen) =
     (let matches = filter (\<lambda>l. l_id l \<notin> seen \<and> mentions keyword l) brandLearnings
      in matchActivityKeywords rest brandLearnings (pushUnseen matches (relevant, seen)))"

text \<open>
  \<open>activityMap[context.activity] || []\<close>. The map is an object literal, so a name that
  every object inherits (\<open>constructor\<close>, \<open>toString\<close>, ...) looks up a function or an
  object, which is truthy and not iterable: the \<open>for ... of\<close> over it throws a
  \<open>TypeError\<close>.
\<close>

definition inheritedNames :: "string list" where
  "inheritedNames =
     [''constructor'', ''__defineGetter__'', ''__defineSetter__'', ''hasOwnProperty'',
      ''__lookupGetter__'', ''__lookupSetter__'', ''isPrototypeOf'', ''propertyIsEnumerable'',
      ''toString'', ''valueOf'', ''__proto__'', ''toLocaleString'']"

definition activityMap :: "string \<Rightarrow> js_error + string list" where
  "activityMap a =
     (if a = ''keyword_research'' then Inr [''keywords'', ''seo'', ''search'']
      else if a = ''content_planning'' then Inr [''content'', ''topics'', ''calendar'']
      else if a = ''competitor_analysis'' then Inr [''competitor'', ''analysis'', ''comparison'']
      else if a = ''strategy_creation'' then Inr [''strategy'', ''positioning'', ''channels'']
      else if a \<in> set inheritedNames then Inl TypeError
      else Inr [])"

text \<open>
  The comparison function of the final sort. \<open>localeCompare\<close> is taken on dates in the
  form \<open>YYYY-MM-DD\<close> that \<open>getDateString\<close> writes, where it is the order of the
  characters.
\<close>

definition localeCompare :: "string \<Rightarrow> string \<Rightarrow> int" where
  "localeCompare a b = (if a < b then - 1 else if a = b then 0 else 1)"

fun confOrder :: "confidence \<Rightarrow> int" where
  "confOrder high = 0"
| "confOrder medium = 1"
| "confOrder low = 2"

definition compareLearnings :: "learning \<Rightarrow> learning \<Rightarrow> int" where
  "compareLearnings a b =
     (let confDiff = confOrder (l_confidence a) - confOrder (l_confidence b)
      in if confDiff \<noteq> 0 then confDiff else localeCompare (l_date b) (l_date a))"

text \<open>
  \<open>Array.prototype.sort\<close> with a comparison function: a stable sort, here by insertion.
\<close>

fun insertBy :: "('a \<Rightarrow> 'a \<Rightarrow> int) \<Rightarrow> 'a \<Rightarrow> 'a list \<Rightarrow> 'a list" where
  "insertBy cmp x [] = [x]"
| "insertBy cmp x (y # ys) = (if cmp x y \<le> 0 then x # y # ys else y # insertBy cmp x ys)"

definition sortBy :: "('a \<Rightarrow> 'a \<Rightarrow> int) \<Rightarrow> 'a list \<Rightarrow> 'a list" where
  "sortBy cmp xs = foldr (insertBy cmp) xs []"

definition getRelevantLearnings ::
  "string \<Rightarrow> relevance_context \<Rightarrow> world \<Rightarrow> js_error + learning list" where
  "getRelevantLearnings bid ctx w =
     (let brandLearnings = getBrandLearnings bid w
      in if \<not> truthy (rc_activity ctx) \<and> \<not> truthy (rc_category ctx)
            \<and> (case rc_keywords ctx of Some ks \<Rightarrow> length ks = 0 | None \<Rightarrow> True)
         then Inr (sliceLast 5 brandLearnings)
         else
           (let st0 = ([], {});
                st1 = (case rc_category ctx of
                         Some c \<Rightarrow>
                           if truthy (Some c)
                           then pushUnseen
                                  (filter (\<lambda>l. includes_str (toLowerCase (l_category l)) (toLowerCase c))
                                     brandLearnings) st0
                           else st0
                       | None \<Rightarrow> st0);
                st2 = (case rc_keywords ctx of
                         Some ks \<Rightarrow>
                           if length ks \<noteq> 0 then matchKeywords ks brandLearnings st1 else st1
                       | None \<Rightarrow> st1)
            in case rc_activity ctx of
                 Some a \<Rightarrow>
                   if truthy (Some a)
                   then (case activityMap a of
                           Inl e \<Rightarrow> Inl e
                         | Inr activityKeywords \<Rightarrow>
                             Inr (sortBy compareLearnings
                                    (fst (matchActivityKeywords activityKeywords brandLearnings st2))))
                   else Inr (sortBy compareLearnings (fst st2))
               | None \<Rightarrow> Inr (sortBy compareLearnings (fst st2))))"

definition promoteToGlobal :: "string \<Rightarrow> world \<Rightarrow> learning option \<times> world" where
  "promoteToGlobal learningId w =
     (let learnings = loadLearnings w
      in case findIndex (\<lambda>l. l_id l = learningId) learnings of
           None \<Rightarrow> (None, w)
         | Some i \<Rightarrow>
             (let learning = (learnings ! i)\<lparr>l_brand := ''global''\<rparr>
              in (Some learning, snd (saveLearnings (learnings[i := learning]) w))))"

text \<open>
  The order that the result of \<open>getRelevantLearnings\<close> is said to have: high before
  medium before low, and within one confidence the later date first.
\<close>

fun confidenceBefore :: "confidence \<Rightarrow> confidence \<Rightarrow> bool" where
  "confidenceBefore high medium = True"
| "confidenceBefore high low = True"
| "confidenceBefore medium low = True"
| "confidenceBefore _ _ = False"

definition rankedBefore :: "learning \<Rightarrow> learning \<Rightarrow> bool" where
  "rankedBefore a b =
     (confidenceBefore (l_confidence a) (l_confidence b)
      \<or> (l_confidence a = l_confidence b \<and> l_date b \<le> l_date a))"

text \<open>
  What the loops of \<open>getRelevantLearnings\<close> keep true of \<open>relevant\<close> and \<open>seen\<close>:
  \<open>seen\<close> holds the identifiers of \<open>relevant\<close>, and no identifier is there twice.
\<close>

definition seenOk :: "learning list \<times> string set \<Rightarrow> bool" where
  "seenOk st = (snd st = l_id ` set (fst st) \<and> distinct (map l_id (fst st)))"

text \<open>A ledger, a handoff and some learnings for the examples.\<close>

definition sampleLedger :: ledger where
  "sampleLedger =
     \<lparr>brandId = ''acme'', brandName = ''Acme'', started = 1700000000000, goal = Some ''Rank first'',
      completed = [], inProgress = [], blockers = [], ledger_notes = []\<rparr>"

definition sampleHandoff :: handoff where
  "sampleHandoff =
     \<lparr>h_brandId = ''acme'', h_created = 1700000000000,
      lastSession = \<lparr>ls_date = ''2023-11-14'', ls_duration = None, ls_completed = [],
                      ls_inProgress = [], ls_deferred = []\<rparr>,
      nextSteps = [\<lparr>priority = 1, pt_task = ''Audit'', pt_context = None\<rparr>,
                   \<lparr>priority = 2, pt_task = ''Brief'', pt_context = None\<rparr>,
                   \<lparr>priority = 3, pt_task = ''Calendar'', pt_context = None\<rparr>],
      resumePrompt = ''Working with Acme.''\<rparr>"

definition sampleLearning :: learning where
  "sampleLearning =
     \<lparr>l_id = ''learn-1'', l_brand = ''acme'', l_date = ''2023-11-14'', l_type = what_worked,
      l_category = ''seo'', l_content = ''Long-tail keywords converted better'',
      l_context = None, l_confidence = medium, l_metrics = None\<rparr>"

definition sampleLearnings :: "learning list" where
  "sampleLearnings =
     [sampleLearning,
      sampleLearning\<lparr>l_id := ''learn-2'', l_date := ''2023-12-01''\<rparr>,
      sampleLearning\<lparr>l_id := ''learn-3'', l_brand := ''global'', l_confidence := high,
                     l_category := ''SEO basics''\<rparr>,
      sampleLearning\<lparr>l_id := ''learn-4'', l_brand := ''zenith''\<rparr>]"

section \<open>Brand manager (brand-manager.ts) and \<open>generateId\<close> (storage.ts)\<close>

definition isAlnum :: "char \<Rightarrow> bool" where
  "isAlnum c = (c \<in> set ''abcdefghijklmnopqrstuvwxyz0123456789'')"

text \<open>\<open>.replace(/[^a-z0-9]+/g, '-')\<close>\<close>

function hyphenate :: "string \<Rightarrow> string" where
  "hyphenate [] = []"
| "hyphenate (c # cs) =
     (if isAlnum c then c # hyphenate cs
      else CHR ''-'' # hyphenate (dropWhile (\<lambda>d. \<not> isAlnum d) cs))"
  by pat_completeness auto
termination
  by (relation "measure length") (auto simp: less_Suc_eq_le length_dropWhile_le)

text \<open>\<open>.replace(/^-|-$/g, '')\<close>: one hyphen off the front, then one off the end.\<close>

definition trimHyphens :: "string \<Rightarrow> string" where
  "trimHyphens s =
     (let s1 = (case s of [] \<Rightarrow> [] | c # cs \<Rightarrow> if c = CHR ''-'' then cs else s)
      in if s1 \<noteq> [] \<and> last s1 = CHR ''-'' then butlast s1 else s1)"

definition generateId :: "string \<Rightarrow> string" where
  "generateId name = take 50 (trimHyphens (hyphenate (toLowerCase name)))"

text \<open>
  The transformation in the words of the specification: lower-case the name, put a
  hyphen for every character that is not a letter or a digit, let one hyphen stand for
  each run of hyphens, trim a hyphen at either end, keep 50 characters.
\<close>

fun squeeze :: "string \<Rightarrow> string" where
  "squeeze (c # d # cs) =
     (if c = CHR ''-'' \<and> d = CHR ''-'' then squeeze (d # cs) else c # squeeze (d # cs))"
| "squeeze cs = cs"

definition slugOf :: "string \<Rightarrow> string" where
  "slugOf name =
     take 50 (trimHyphens (squeeze (map (\<lambda>c. if isAlnum c then c else CHR ''-'')
                                      (toLowerCase name))))"

text \<open>\<open>.replace(/^https?:\/\//, '').replace(/\/$/, '')\<close> on the website.\<close>

definition stripProtocol :: "string \<Rightarrow> string" where
  "stripProtocol s =
     (if startsWith s ''http://'' then drop 7 s
      else if startsWith s ''https://'' then drop 8 s
      else s)"

definition stripTrailingSlash :: "string \<Rightarrow> string" where
  "stripTrailingSlash s = (if s \<noteq> [] \<and> last s = CHR ''/'' then butlast s else s)"

definition getBrand :: "string \<Rightarrow> world \<Rightarrow> brand option" where
  "getBrand bid w = brand_files w bid"

definition getConfig :: "world \<Rightarrow> config option" where
  "getConfig w = config_file w"

text \<open>
  \<open>{ ...brand, ...updates }\<close>: the fields of the payload, where it has them, over those
  of the brand.
\<close>

definition mergeBrand :: "brand \<Rightarrow> brand_updates \<Rightarrow> brand" where
  "mergeBrand b u =
     \<lparr>b_id = (case u_id u of Some v \<Rightarrow> v | None \<Rightarrow> b_id b),
      b_name = (case u_name u of Some v \<Rightarrow> v | None \<Rightarrow> b_name b),
      b_website = (case u_website u of Some v \<Rightarrow> v | None \<Rightarrow> b_website b),
      b_created = (case u_created u of Some v \<Rightarrow> v | None \<Rightarrow> b_created b),
      b_lastUpdated = (case u_lastUpdated u of Some v \<Rightarrow> v | None \<Rightarrow> b_lastUpdated b),
      b_lastSession = (case u_lastSession u of Some v \<Rightarrow> Some v | None \<Rightarrow> b_lastSession b),
      b_business = (case u_business u of Some v \<Rightarrow> v | None \<Rightarrow> b_business b),
      b_audience = (case u_audience u of Some v \<Rightarrow> v | None \<Rightarrow> b_audience b),
      b_competitors = (case u_competitors u of Some v \<Rightarrow> v | None \<Rightarrow> b_competitors b),
      b_accounts = (case u_accounts u of Some v \<Rightarrow> v | None \<Rightarrow> b_accounts b),
      b_currentInvestments =
        (case u_currentInvestments u of Some v \<Rightarrow> v | None \<Rightarrow> b_currentInvestments b),
      b_strategy = (case u_strategy u of Some v \<Rightarrow> Some v | None \<Rightarrow> b_strategy b),
      b_notes = (case u_notes u of Some v \<Rightarrow> v | None \<Rightarrow> b_notes b),
      b_preferences = (case u_preferences u of Some v \<Rightarrow> v | None \<Rightarrow> b_preferences b)\<rparr>"

definition updateBrand ::
  "string \<Rightarrow> brand_updates \<Rightarrow> clock \<Rightarrow> world \<Rightarrow> (js_error + brand) \<times> world" where
  "updateBrand bid updates clk w =
     (case getBrand bid w of
        None \<Rightarrow> (Inl (BrandNotFound bid), w)
      | Some b \<Rightarrow>
          (let updatedBrand = (mergeBrand b updates)
                 \<lparr>b_id := b_id b, b_created := b_created b, b_lastUpdated := getDateString clk\<rparr>;
               (success, w1) =
                  writeYaml (\<lambda>v. v\<lparr>brand_files := (brand_files v)(bid \<mapsto> updatedBrand)\<rparr>) w
           in if \<not> success then (Inl FailedToUpdateBrand, w1) else (Inr updatedBrand, w1)))"

definition noUpdates :: brand_updates where
  "noUpdates =
     \<lparr>u_id = None, u_name = None, u_website = None, u_created = None, u_lastUpdated = None,
      u_lastSession = None, u_business = None, u_audience = None, u_competitors = None,
      u_accounts = None, u_currentInvestments = None, u_strategy = None, u_notes = None,
      u_preferences = None\<rparr>"

definition setActiveBrand :: "string option \<Rightarrow> clock \<Rightarrow> world \<Rightarrow> (js_error + unit) \<times> world" where
  "setActiveBrand bidArg clk w =
     (let cfg = (case getConfig w of Some c \<Rightarrow> c | None \<Rightarrow> getDefaultConfig);
          cfg1 = cfg\<lparr>activeBrand := bidArg\<rparr>;
          w1 = snd (writeYaml (\<lambda>v. v\<lparr>config_file := Some cfg1\<rparr>) w)
      in case bidArg of
           Some bid \<Rightarrow>
             (if truthy (Some bid) then
                (case getBrand bid w1 of
                   Some b \<Rightarrow>
                     (case updateBrand bid (noUpdates\<lparr>u_lastSession := Some (getDateString clk)\<rparr>) clk w1 of
                        (Inl e, w2) \<Rightarrow> (Inl e, w2)
                      | (Inr b', w2) \<Rightarrow> (Inr (), w2))
                 | None \<Rightarrow> (Inr (), w1))
              else (Inr (), w1))
         | None \<Rightarrow> (Inr (), w1))"

text \<open>
  The argument of \<open>createBrand\<close>: the name, the website and the optional parts that it
  reads.
\<close>

record brand_data =
  d_name :: string
  d_website :: string
  d_business :: "business_info option"
  d_audience :: "audience_info option"
  d_competitors :: "competitor list option"
  d_accounts :: "api_accounts option"
  d_currentInvestments :: "marketing_investments option"
  d_notes :: "brand_note list option"
  d_preferences :: "brand_preferences option"

definition createBrand :: "brand_data \<Rightarrow> clock \<Rightarrow> world \<Rightarrow> (js_error + brand) \<times> world" where
  "createBrand d clk w =
     (let bid = generateId (d_name d)
      in if brand_files w bid \<noteq> None then (Inl (BrandAlreadyExists bid), w)
         else
           (let now = getDateString clk;
                b = \<lparr>b_id = bid, b_name = d_name d,
                     b_website = stripTrailingSlash (stripProtocol (d_website d)),
                     b_created = now, b_lastUpdated = now, b_lastSession = None,
                     b_business = (case d_business d of Some v \<Rightarrow> v
                        | None \<Rightarrow> \<lparr>industry = [], product = [], model = [], priceRange = None, usp = []\<rparr>),
                     b_audience = (case d_audience d of Some v \<Rightarrow> v
                        | None \<Rightarrow> \<lparr>primary = \<lparr>description = [], role = None, companySize = None\<rparr>,
                                   secondary = None, geo = [], painPoints = []\<rparr>),
                     b_competitors = (case d_competitors d of Some v \<Rightarrow> v | None \<Rightarrow> []),
                     b_accounts = (case d_accounts d of Some v \<Rightarrow> v
                        | None \<Rightarrow> \<lparr>googleAds_account = None, metaAds_account = None, gscProperty = None,
                                   ga4Property = None, ahrefsProject = None, semrushProject = None\<rparr>),
                     b_currentInvestments = (case d_currentInvestments d of Some v \<Rightarrow> v
                        | None \<Rightarrow> \<lparr>googleAds = None, metaAds = None, seo = None, email = None,
                                   social = None\<rparr>),
                     b_strategy = None,
                     b_notes = (case d_notes d of Some v \<Rightarrow> v | None \<Rightarrow> []),
                     b_preferences = (case d_preferences d of Some v \<Rightarrow> v
                        | None \<Rightarrow> \<lparr>dataMode = ''ask'', contactEmail = None, timezone = None\<rparr>)\<rparr>;
                (success, w1) = writeYaml (\<lambda>v. v\<lparr>brand_files := (brand_files v)(bid \<mapsto> b)\<rparr>) w
            in if \<not> success then (Inl FailedToSaveBrand, w1)
               else (case setActiveBrand (Some bid) clk w1 of
                       (Inl e, w2) \<Rightarrow> (Inl e, w2)
                     | (Inr u, w2) \<Rightarrow> (Inr b, w2))))"

definition brandData :: "string \<Rightarrow> string \<Rightarrow> brand_data" where
  "brandData name website =
     \<lparr>d_name = name, d_website = website, d_business = None, d_audience = None,
      d_competitors = None, d_accounts = None, d_currentInvestments = None, d_notes = None,
      d_preferences = None\<rparr>"

section \<open>History (history-manager.ts) and session manager (session-manager.ts)\<close>

definition startSession :: "string \<Rightarrow> clock \<Rightarrow> world \<Rightarrow> session \<times> world" where
  "startSession bid clk w =
     (let s = \<lparr>s_date = getDateString clk, s_duration = None, s_brandId = bid,
                s_activities = [], s_notes = []\<rparr>
      in (s, w\<lparr>currentSession := Some s\<rparr>))"

definition saveSessionToHistory :: "session \<Rightarrow> clock \<Rightarrow> world \<Rightarrow> bool \<times> world" where
  "saveSessionToHistory s clk w =
     (let yearMonth = getCurrentYearMonth clk;
          history = (case history_files w (s_brandId s, yearMonth) of
                       Some h \<Rightarrow> h
                     | None \<Rightarrow> \<lparr>hf_brandId = s_brandId s, hf_yearMonth = yearMonth,
                                 hf_sessions = []\<rparr>);
          history1 = history\<lparr>hf_sessions := hf_sessions history @ [s]\<rparr>
      in writeYaml (\<lambda>v. v\<lparr>history_files :=
                            (history_files v)((s_brandId s, yearMonth) \<mapsto> history1)\<rparr>) w)"

definition endSession :: "string option \<Rightarrow> clock \<Rightarrow> world \<Rightarrow> session option \<times> world" where
  "endSession dur clk w =
     (case currentSession w of
        None \<Rightarrow> (None, w)
      | Some s \<Rightarrow>
          (let s1 = (if truthy dur then s\<lparr>s_duration := dur\<rparr> else s);
               w1 = snd (saveSessionToHistory s1 clk w)
           in (Some s1, w1\<lparr>currentSession := None\<rparr>)))"

text \<open>
  The results of \<open>beginSession\<close> and \<open>finishSession\<close>. The message texts are left out;
  in place of the display text of the handoff, \<open>resumeContext\<close> is the handoff that
  \<open>formatHandoffDisplay\<close> would render, and \<open>fr_summary\<close> is the summary that the
  summary text is written from.
\<close>

record begin_result =
  br_success :: bool
  resumeContext :: "handoff option"

record finish_options =
  fo_createHandoff :: "bool option"
  fo_nextSteps :: "prioritized_task list option"

record finish_result =
  fr_success :: bool
  fr_summary :: "session_summary option"

definition beginSession ::
  "string \<Rightarrow> string option \<Rightarrow> clock \<Rightarrow> world \<Rightarrow> (js_error + begin_result) \<times> world" where
  "beginSession bid g clk w =
     (case getBrand bid w of
        None \<Rightarrow> (Inr \<lparr>br_success = False, resumeContext = None\<rparr>, w)
      | Some b \<Rightarrow>
          (case setActiveBrand (Some bid) clk w of
             (Inl e, w1) \<Rightarrow> (Inl e, w1)
           | (Inr u, w1) \<Rightarrow>
               (let w2 = snd (initLedger bid (b_name b) g clk w1);
                    w3 = snd (startSession bid clk w2);
                    (ctx, w4) =
                       (if hasHandoff bid w3
                        then (case getHandoff bid w3 of
                                Some h \<Rightarrow>
                                  (Some h, w3\<lparr>sessionState := (sessionState w3)\<lparr>ss_handoff := Some h\<rparr>\<rparr>)
                              | None \<Rightarrow> (None, w3))
                        else (None, w3));
                    (l, w5) = getLedger w4;
                    w6 = w5\<lparr>sessionState :=
                              \<lparr>ss_brand = Some b, ss_ledger = l,
                               ss_handoff = ss_handoff (sessionState w5), isActive = True,
                               startTime = Some (now_ms clk)\<rparr>\<rparr>
                in (Inr \<lparr>br_success = True, resumeContext = ctx\<rparr>, w6))))"

definition finishSession ::
  "finish_options option \<Rightarrow> clock \<Rightarrow> world \<Rightarrow> finish_result \<times> world" where
  "finishSession options clk w =
     (case ss_brand (sessionState w) of
        None \<Rightarrow> (\<lparr>fr_success = False, fr_summary = None\<rparr>, w)
      | Some b \<Rightarrow>
          (if \<not> isActive (sessionState w) then (\<lparr>fr_success = False, fr_summary = None\<rparr>, w)
           else
             (let bid = b_id b;
                  dur = map_option (\<lambda>t. formatDuration (now_ms clk - t)) (startTime (sessionState w));
                  (summary, w1) = getSessionSummary clk w;
                  w2 = (if (case options of Some opts \<Rightarrow> fo_createHandoff opts | None \<Rightarrow> None) \<noteq> Some False
                        then snd (createHandoff
                                    (case options of Some opts \<Rightarrow> fo_nextSteps opts | None \<Rightarrow> None)
                                    None clk w1)
                        else w1);
                  w3 = snd (endSession dur clk w2);
                  w4 = clearLedger w3;
                  w5 = (if ss_handoff (sessionState w4) \<noteq> None then snd (clearHandoff bid w4) else w4);
                  w6 = w5\<lparr>sessionState := idleSession\<rparr>
              in (\<lparr>fr_success = True, fr_summary = summary\<rparr>, w6))))"

text \<open>A stored brand and a running session for the examples.\<close>

definition acmeBrand :: brand where
  "acmeBrand =
     \<lparr>b_id = ''acme'', b_name = ''Acme'', b_website = ''acme.com'', b_created = ''2023-10-01'',
      b_lastUpdated = ''2023-10-01'', b_lastSession = None,
      b_business = \<lparr>industry = [], product = [], model = [], priceRange = None, usp = []\<rparr>,
      b_audience = \<lparr>primary = \<lparr>description = [], role = None, companySize = None\<rparr>,
                     secondary = None, geo = [], painPoints = []\<rparr>,
      b_competitors = [],
      b_accounts = \<lparr>googleAds_account = None, metaAds_account = None, gscProperty = None,
                     ga4Property = None, ahrefsProject = None, semrushProject = None\<rparr>,
      b_currentInvestments = \<lparr>googleAds = None, metaAds = None, seo = None, email = None,
                               social = None\<rparr>,
      b_strategy = None, b_notes = [],
      b_preferences = \<lparr>dataMode = ''ask'', contactEmail = None, timezone = None\<rparr>\<rparr>"

definition acmeWorld :: world where
  "acmeWorld = freshWorld\<lparr>brand_files := [''acme'' \<mapsto> acmeBrand]\<rparr>"

definition clock1 :: clock where
  "clock1 = \<lparr>now_ms = 1700000900000, date_string = ''2023-11-14'', year_month = ''2023-11''\<rparr>"

section \<open>Properties of the continuity ledger\<close>

lemma findIndex_None: "findIndex p xs = None \<longleftrightarrow> \<not> list_ex p xs"
  by (induction xs) auto

lemma findIndex_Some:
  "findIndex p xs = Some i \<Longrightarrow> i < length xs \<and> p (xs ! i) \<and> \<not> list_ex p (take i xs)"
proof (induction xs arbitrary: i)
  case Nil
  then show ?case by simp
next
  case (Cons x xs)
  then show ?case by (cases i) (auto split: if_splits)
qed

lemma getLedger_Some:
  "fst (getLedger w) = Some l \<Longrightarrow> getLedger w = (Some l, w\<lparr>currentLedger := Some l\<rparr>)"
  by (auto simp: getLedger_def loadLedger_def split: option.splits)

lemma getLedger_current:
  "currentLedger w = Some l \<Longrightarrow> getLedger w = (Some l, w)"
  by (simp add: getLedger_def)

lemma getLedger_absent:
  "currentLedger w = None \<Longrightarrow> continuity_file w = None \<Longrightarrow> getLedger w = (None, w)"
  by (simp add: getLedger_def loadLedger_def)

lemma currentLedger_saveLedger [simp]:
  "currentLedger (snd (saveLedger w)) = currentLedger w"
  by (simp add: saveLedger_def writeYaml_def split: option.splits)

text \<open>
  C9: with no ledger in memory and no continuity record on disk, each of the eight
  mutating operations returns (none of them can raise) and leaves the whole state, the
  in-memory ledger and every file, as it was.
\<close>

theorem ledger_ops_absent_noop:
  assumes "currentLedger w = None" and "continuity_file w = None"
  shows "addInProgressTask t clk w = w \<and> addCompletedTask t r clk w = w
       \<and> completeTask t r clk w = w \<and> updateTaskProgress t p w = w
       \<and> addBlocker b w = w \<and> removeBlocker b w = w
       \<and> addLedgerNote n w = w \<and> setGoal g w = w"
  using getLedger_absent [OF assms]
  by (simp add: addInProgressTask_def addCompletedTask_def completeTask_def
      updateTaskProgress_def addBlocker_def removeBlocker_def addLedgerNote_def setGoal_def)

lemma addCompletedTask_ledger:
  "currentLedger w = Some l \<Longrightarrow>
   currentLedger (addCompletedTask t r clk w) =
     Some (l\<lparr>inProgress := filter (\<lambda>x. \<not> sameText t x) (inProgress l),
             completed := completed l @ [\<lparr>task = t, timestamp = getTimestamp clk, result = r\<rparr>]\<rparr>)"
  by (simp add: addCompletedTask_def getLedger_current sameText_def Let_def)

lemma addInProgressTask_ledger:
  "currentLedger w = Some l \<Longrightarrow>
   currentLedger (addInProgressTask t clk w) =
     Some (if list_ex (sameText t) (inProgress l) then l
           else l\<lparr>inProgress := inProgress l @ [\<lparr>task = t, timestamp = getTimestamp clk, result = None\<rparr>]\<rparr>)"
  unfolding sameText_def [abs_def]
  by (simp add: addInProgressTask_def getLedger_current Let_def)

lemma completeTask_ledger_found:
  "currentLedger w = Some l \<Longrightarrow> findIndex (sameText t) (inProgress l) = Some i \<Longrightarrow>
   currentLedger (completeTask t r clk w) =
     Some (l\<lparr>inProgress := splice1 i (inProgress l),
             completed := completed l @
               [(inProgress l ! i)\<lparr>result := orElse r (result (inProgress l ! i)),
                                  timestamp := getTimestamp clk\<rparr>]\<rparr>)"
  unfolding sameText_def [abs_def]
  by (simp add: completeTask_def getLedger_current Let_def)

lemma completeTask_ledger_missing:
  "currentLedger w = Some l \<Longrightarrow> findIndex (sameText t) (inProgress l) = None \<Longrightarrow>
   completeTask t r clk w = addCompletedTask t r clk w"
  unfolding sameText_def [abs_def]
  by (simp add: completeTask_def getLedger_current Let_def)

lemma map_task_update:
  "i < length xs \<Longrightarrow> map task (xs[i := (xs ! i)\<lparr>result := r\<rparr>]) = map task xs"
  by (simp add: list_eq_iff_nth_eq nth_list_update)

lemma other_ops_ledger:
  assumes "currentLedger w = Some l"
  shows "\<exists>l'. currentLedger (updateTaskProgress t p w) = Some l'
            \<and> map task (inProgress l') = map task (inProgress l) \<and> completed l' = completed l"
    and "\<exists>l'. currentLedger (addBlocker b w) = Some l'
            \<and> inProgress l' = inProgress l \<and> completed l' = completed l"
    and "\<exists>l'. currentLedger (removeBlocker b w) = Some l'
            \<and> inProgress l' = inProgress l \<and> completed l' = completed l"
    and "\<exists>l'. currentLedger (addLedgerNote n w) = Some l'
            \<and> inProgress l' = inProgress l \<and> completed l' = completed l"
    and "\<exists>l'. currentLedger (setGoal g w) = Some l'
            \<and> inProgress l' = inProgress l \<and> completed l' = completed l"
  using assms
  by (auto simp: updateTaskProgress_def addBlocker_def removeBlocker_def addLedgerNote_def
      setGoal_def getLedger_current Let_def map_task_update dest: findIndex_Some
      split: option.splits)

lemma map_key_cong:
  assumes "map task xs = map task ys"
  shows "map (\<lambda>x. f (task x)) xs = map (\<lambda>x. f (task x)) ys"
proof -
  have "map f (map task xs) = map f (map task ys)" using assms by simp
  then show ?thesis by (simp add: comp_def)
qed

lemma taskKey_new: "\<not> list_ex (sameText t) xs \<Longrightarrow>
   toLowerCase t \<notin> (\<lambda>x. toLowerCase (task x)) ` set xs"
  by (auto simp: list_ex_iff sameText_def)

lemma splice1_distinct:
  assumes "i < length xs" and "distinct (map f xs)"
  shows "distinct (map f (splice1 i xs)) \<and> f (xs ! i) \<notin> f ` set (splice1 i xs)"
proof -
  have "map f xs = map f (take i xs) @ f (xs ! i) # map f (drop (Suc i) xs)"
    using assms(1) by (metis id_take_nth_drop list.simps(9) map_append)
  with assms(2) have "distinct (map f (take i xs) @ f (xs ! i) # map f (drop (Suc i) xs))"
    by simp
  then show ?thesis by (auto simp: splice1_def)
qed

lemma inBoth_empty:
  "inBoth l = [] \<longleftrightarrow>
     (\<forall>x \<in> set (inProgress l). \<forall>c \<in> set (completed l).
        toLowerCase (task c) \<noteq> toLowerCase (task x))"
  by (auto simp: inBoth_def filter_empty_conv list_ex_iff sameText_def)

lemma step_distinct:
  assumes "currentLedger w = Some l" and "ciDistinct l"
  shows "\<exists>l'. currentLedger (ledger_call c clk w) = Some l' \<and> ciDistinct l'"
proof (cases c)
  case (AddInProgressTask t)
  then show ?thesis using assms
    by (auto simp: addInProgressTask_ledger ciDistinct_def dest: taskKey_new)
next
  case (AddCompletedTask t r)
  then show ?thesis using assms
    by (simp add: addCompletedTask_ledger ciDistinct_def distinct_map_filter)
next
  case (CompleteTask t r)
  show ?thesis
  proof (cases "findIndex (sameText t) (inProgress l)")
    case None
    then show ?thesis using assms CompleteTask
      by (simp add: completeTask_ledger_missing addCompletedTask_ledger ciDistinct_def
          distinct_map_filter)
  next
    case (Some i)
    then have "i < length (inProgress l)" by (auto dest: findIndex_Some)
    then show ?thesis using assms CompleteTask Some
      by (simp add: completeTask_ledger_found ciDistinct_def splice1_distinct)
  qed
next
  case (UpdateTaskProgress t p)
  obtain l' where "currentLedger (updateTaskProgress t p w) = Some l'"
    and "map task (inProgress l') = map task (inProgress l)"
    using other_ops_ledger(1) [OF assms(1)] by blast
  then show ?thesis using assms(2) UpdateTaskProgress map_key_cong [of "inProgress l'" "inProgress l" toLowerCase]
    by (simp add: ciDistinct_def)
next
  case (AddBlocker b)
  then show ?thesis using other_ops_ledger(2) [OF assms(1), of b] assms(2)
    by (auto simp: ciDistinct_def)
next
  case (RemoveBlocker b)
  then show ?thesis using other_ops_ledger(3) [OF assms(1), of b] assms(2)
    by (auto simp: ciDistinct_def)
next
  case (AddLedgerNote n)
  then show ?thesis using other_ops_ledger(4) [OF assms(1), of n] assms(2)
    by (auto simp: ciDistinct_def)
next
  case (SetGoal g)
  then show ?thesis using other_ops_ledger(5) [OF assms(1), of g] assms(2)
    by (auto simp: ciDistinct_def)
qed

lemma step_inBoth:
  assumes "currentLedger w = Some l" and "ciDistinct l" and "inBoth l = []"
    and "neverReopens [(c, clk)] w"
  shows "\<exists>l'. currentLedger (ledger_call c clk w) = Some l' \<and> inBoth l' = []"
proof (cases c)
  case (AddInProgressTask t)
  then show ?thesis using assms
    by (auto simp: addInProgressTask_ledger inBoth_empty list_ex_iff sameText_def)
next
  case (AddCompletedTask t r)
  then show ?thesis using assms
    by (auto simp: addCompletedTask_ledger inBoth_empty sameText_def)
next
  case (CompleteTask t r)
  show ?thesis
  proof (cases "findIndex (sameText t) (inProgress l)")
    case None
    then show ?thesis using assms CompleteTask
      by (auto simp: completeTask_ledger_missing addCompletedTask_ledger inBoth_empty
          sameText_def)
  next
    case (Some i)
    then have i: "i < length (inProgress l)" by (auto dest: findIndex_Some)
    have "toLowerCase (task (inProgress l ! i))
            \<notin> (\<lambda>x. toLowerCase (task x)) ` set (splice1 i (inProgress l))"
      using splice1_distinct [OF i, of "\<lambda>x. toLowerCase (task x)"] assms(2)
      by (simp add: ciDistinct_def)
    moreover have "set (splice1 i (inProgress l)) \<subseteq> set (inProgress l)"
      by (auto simp: splice1_def dest: in_set_takeD in_set_dropD)
    ultimately show ?thesis using assms CompleteTask Some
      by (auto simp: completeTask_ledger_found inBoth_empty)
  qed
next
  case (UpdateTaskProgress t p)
  obtain l' where l': "currentLedger (updateTaskProgress t p w) = Some l'"
    "map task (inProgress l') = map task (inProgress l)" "completed l' = completed l"
    using other_ops_ledger(1) [OF assms(1)] by blast
  have "task ` set (inProgress l') = task ` set (inProgress l)"
    using l'(2) by (metis set_map)
  then have "inBoth l' = []" using assms(3) l'(3)
    by (simp add: inBoth_empty) (metis (no_types, lifting) imageE imageI)
  then show ?thesis using l'(1) UpdateTaskProgress by simp
next
  case (AddBlocker b)
  then show ?thesis using other_ops_ledger(2) [OF assms(1), of b] assms(3)
    by (auto simp: inBoth_def)
next
  case (RemoveBlocker b)
  then show ?thesis using other_ops_ledger(3) [OF assms(1), of b] assms(3)
    by (auto simp: inBoth_def)
next
  case (AddLedgerNote n)
  then show ?thesis using other_ops_ledger(4) [OF assms(1), of n] assms(3)
    by (auto simp: inBoth_def)
next
  case (SetGoal g)
  then show ?thesis using other_ops_ledger(5) [OF assms(1), of g] assms(3)
    by (auto simp: inBoth_def)
qed

lemma run_invariant:
  assumes "currentLedger w = Some l" and "ciDistinct l"
  shows "\<exists>l'. currentLedger (ledger_run cs w) = Some l' \<and> ciDistinct l'
            \<and> (inBoth l = [] \<longrightarrow> neverReopens cs w \<longrightarrow> inBoth l' = [])"
  using assms
proof (induction cs arbitrary: w l)
  case Nil
  then show ?case by simp
next
  case (Cons a cs)
  obtain c clk where a: "a = (c, clk)" by (cases a)
  obtain l1 where l1: "currentLedger (ledger_call c clk w) = Some l1" "ciDistinct l1"
    using step_distinct [OF Cons.prems] by blast
  obtain l' where l': "currentLedger (ledger_run cs (ledger_call c clk w)) = Some l'"
    "ciDistinct l'"
    "inBoth l1 = [] \<longrightarrow> neverReopens cs (ledger_call c clk w) \<longrightarrow> inBoth l' = []"
    using Cons.IH [OF l1] by blast
  have "inBoth l' = []" if h1: "inBoth l = []" and h2: "neverReopens (a # cs) w"
  proof -
    have g1: "neverReopens [(c, clk)] w" and g2: "neverReopens cs (ledger_call c clk w)"
      using h2 a by simp_all
    obtain l2 where "currentLedger (ledger_call c clk w) = Some l2" and "inBoth l2 = []"
      using step_inBoth [OF Cons.prems h1 g1] by blast
    then have "inBoth l1 = []" using l1(1) by simp
    then show ?thesis using l'(3) g2 by simp
  qed
  then show ?case using l' a by simp
qed

lemma initLedger_current:
  "currentLedger (snd (initLedger b n g clk w)) =
     Some \<lparr>brandId = b, brandName = n, started = getTimestamp clk, goal = g,
           completed = [], inProgress = [], blockers = [], ledger_notes = []\<rparr>"
  by (simp add: initLedger_def Let_def)

lemma completeTask_moves:
  assumes "currentLedger w = Some l" and "ciDistinct l"
  shows "\<exists>l' c. currentLedger (completeTask t r clk w) = Some l'
           \<and> \<not> list_ex (sameText t) (inProgress l')
           \<and> completed l' = completed l @ [c] \<and> sameText t c
           \<and> (list_ex (sameText t) (inProgress l) \<longrightarrow>
                Suc (length (inProgress l')) = length (inProgress l)
                \<and> task c \<in> task ` set (inProgress l))"
proof (cases "findIndex (sameText t) (inProgress l)")
  case None
  then have "\<not> list_ex (sameText t) (inProgress l)" by (simp add: findIndex_None)
  then show ?thesis using assms(1) None
    by (simp add: completeTask_ledger_missing addCompletedTask_ledger list_ex_iff
        sameText_def)
next
  case (Some i)
  then have i: "i < length (inProgress l)" and p: "sameText t (inProgress l ! i)"
    by (auto dest: findIndex_Some)
  have "toLowerCase (task (inProgress l ! i))
          \<notin> (\<lambda>x. toLowerCase (task x)) ` set (splice1 i (inProgress l))"
    using splice1_distinct [OF i, of "\<lambda>x. toLowerCase (task x)"] assms(2)
    by (simp add: ciDistinct_def)
  then have "\<not> list_ex (sameText t) (splice1 i (inProgress l))"
    using p by (simp add: list_ex_iff sameText_def image_iff) metis
  moreover have "Suc (length (splice1 i (inProgress l))) = length (inProgress l)"
    using i by (simp add: splice1_def)
  ultimately show ?thesis using assms(1) Some i p
    by (simp add: completeTask_ledger_found sameText_def)
qed

text \<open>
  C2, amended: after any run of mutating operations that starts from \<open>initLedger\<close>, the
  ledger exists, and if \<open>addInProgressTask\<close> was never called with a text that was in
  the completed list at that moment, no task text is in both lists (compared
  case-insensitively). After any run whatsoever, \<open>completeTask t\<close> leaves no in-progress
  entry with the text \<open>t\<close> and appends one entry with that text to the completed list;
  if \<open>t\<close> was in progress, the in-progress list is one entry shorter and the appended
  entry carries the text of an entry that was in progress.
\<close>

theorem no_task_in_both_unless_reopened:
  "\<exists>l. currentLedger (ledger_run cs (snd (initLedger b n g clk0 w))) = Some l
     \<and> (neverReopens cs (snd (initLedger b n g clk0 w)) \<longrightarrow> inBoth l = [])
     \<and> (\<exists>l' c. currentLedger
                  (completeTask t r clk (ledger_run cs (snd (initLedger b n g clk0 w))))
                = Some l'
           \<and> \<not> list_ex (sameText t) (inProgress l')
           \<and> completed l' = completed l @ [c] \<and> sameText t c
           \<and> (list_ex (sameText t) (inProgress l) \<longrightarrow>
                Suc (length (inProgress l')) = length (inProgress l)
                \<and> task c \<in> task ` set (inProgress l)))"
proof -
  let ?w0 = "snd (initLedger b n g clk0 w)"
  let ?l0 = "\<lparr>brandId = b, brandName = n, started = getTimestamp clk0, goal = g,
              completed = [], inProgress = [], blockers = [], ledger_notes = []\<rparr>"
  have c0: "currentLedger ?w0 = Some ?l0" by (rule initLedger_current)
  have d0: "ciDistinct ?l0" and e0: "inBoth ?l0 = []"
    by (simp_all add: ciDistinct_def inBoth_def)
  obtain l where l: "currentLedger (ledger_run cs ?w0) = Some l" "ciDistinct l"
    "inBoth ?l0 = [] \<longrightarrow> neverReopens cs ?w0 \<longrightarrow> inBoth l = []"
    using run_invariant [OF c0 d0] by blast
  show ?thesis
    using l e0 completeTask_moves [OF l(1) l(2), of t r clk] by auto
qed

text \<open>
  The unfolding that evaluates the ledger operations on a concrete state.
\<close>

lemmas ledger_eval =
  initLedger_def saveLedger_def writeYaml_def getLedger_def loadLedger_def
  addInProgressTask_def addCompletedTask_def completeTask_def updateTaskProgress_def
  addBlocker_def removeBlocker_def addLedgerNote_def setGoal_def
  freshWorld_def clock0_def getTimestamp_def sameText_def inBoth_def
  toLowerCase_def toLowerCase_char_def orElse_def splice1_def Let_def

text \<open>
  An instance: a task is started and then completed under another letter case.
\<close>

theorem no_task_in_both_unless_reopened_witness:
  "neverReopens [(AddInProgressTask ''Audit'', clock0), (CompleteTask ''audit'' None, clock0)]
     (snd (initLedger ''acme'' ''Acme'' None clock0 freshWorld))
   \<and> map_option inBoth
       (currentLedger
          (ledger_run [(AddInProgressTask ''Audit'', clock0), (CompleteTask ''audit'' None, clock0)]
             (snd (initLedger ''acme'' ''Acme'' None clock0 freshWorld)))) = Some []"
proof -
  have g: "neverReopens [(AddInProgressTask ''Audit'', clock0), (CompleteTask ''audit'' None, clock0)]
     (snd (initLedger ''acme'' ''Acme'' None clock0 freshWorld))"
    by (simp add: ledger_eval)
  show ?thesis
    using g no_task_in_both_unless_reopened
      [of "[(AddInProgressTask ''Audit'', clock0), (CompleteTask ''audit'' None, clock0)]"
          "''acme''" "''Acme''" None clock0 freshWorld "''audit''" None clock0]
    by auto
qed

text \<open>
  C2 as stated fails: \<open>addInProgressTask\<close> looks at the in-progress list only, so a
  task that was completed and is started again is in both lists.
\<close>

theorem reopened_task_in_both_counterexample:
  "map_option inBoth
     (currentLedger
        (ledger_run [(AddCompletedTask ''Audit'' None, clock0), (AddInProgressTask ''audit'', clock0)]
           (snd (initLedger ''acme'' ''Acme'' None clock0 freshWorld))))
   = Some [\<lparr>task = ''audit'', timestamp = 1700000000000, result = None\<rparr>]"
  by (simp add: ledger_eval)

text \<open>
  C5, amended: \<open>addBlocker\<close> leaves the state unchanged when the very same text is
  already a blocker, and appends the text otherwise (also when it differs from a blocker
  only in letter case); \<open>removeBlocker\<close> keeps exactly the blockers whose lower-cased
  text differs from the lower-cased argument, so none that matches it remains.
\<close>

theorem blockers_exact_add_caseless_remove:
  assumes "currentLedger w = Some l"
  shows "(b \<in> set (blockers l) \<longrightarrow> addBlocker b w = w)
       \<and> (b \<notin> set (blockers l) \<longrightarrow>
            map_option blockers (currentLedger (addBlocker b w)) = Some (blockers l @ [b]))
       \<and> (\<exists>l'. currentLedger (removeBlocker b w) = Some l'
            \<and> blockers l' = filter (\<lambda>x. toLowerCase x \<noteq> toLowerCase b) (blockers l)
            \<and> \<not> list_ex (\<lambda>x. toLowerCase x = toLowerCase b) (blockers l'))"
  using assms
  by (simp add: addBlocker_def removeBlocker_def getLedger_current Let_def list_ex_iff)

theorem blockers_exact_add_caseless_remove_witness:
  "currentLedger (addBlocker ''API'' (snd (initLedger ''acme'' ''Acme'' None clock0 freshWorld)))
     = Some \<lparr>brandId = ''acme'', brandName = ''Acme'', started = 1700000000000, goal = None,
             completed = [], inProgress = [], blockers = [''API''], ledger_notes = []\<rparr>
   \<and> addBlocker ''API'' (addBlocker ''API'' (snd (initLedger ''acme'' ''Acme'' None clock0 freshWorld)))
     = addBlocker ''API'' (snd (initLedger ''acme'' ''Acme'' None clock0 freshWorld))
   \<and> map_option blockers (currentLedger (removeBlocker ''api''
        (addBlocker ''API'' (snd (initLedger ''acme'' ''Acme'' None clock0 freshWorld))))) = Some []"
proof -
  have c: "currentLedger (addBlocker ''API'' (snd (initLedger ''acme'' ''Acme'' None clock0 freshWorld)))
     = Some \<lparr>brandId = ''acme'', brandName = ''Acme'', started = 1700000000000, goal = None,
             completed = [], inProgress = [], blockers = [''API''], ledger_notes = []\<rparr>"
    by (simp add: ledger_eval)
  show ?thesis
    using c blockers_exact_add_caseless_remove [OF c, of "''API''"]
      blockers_exact_add_caseless_remove [OF c, of "''api''"]
    by (auto simp: toLowerCase_def toLowerCase_char_def)
qed

text \<open>
  C5 as stated fails: a blocker that differs from an existing one only in letter case
  is added.
\<close>

theorem addBlocker_case_variant_counterexample:
  "toLowerCase ''api'' = toLowerCase ''API''
   \<and> map_option blockers
       (currentLedger
          (addBlocker ''api''
             (addBlocker ''API'' (snd (initLedger ''acme'' ''Acme'' None clock0 freshWorld)))))
     = Some [''API'', ''api'']"
  by (simp add: ledger_eval)

theorem ledger_ops_absent_noop_witness:
  "currentLedger freshWorld = None \<and> continuity_file freshWorld = None
   \<and> addInProgressTask ''Audit'' clock0 freshWorld = freshWorld
   \<and> completeTask ''Audit'' None clock0 freshWorld = freshWorld
   \<and> setGoal ''Rank first'' freshWorld = freshWorld"
proof -
  have a: "currentLedger freshWorld = None" and b: "continuity_file freshWorld = None"
    by (simp_all add: freshWorld_def)
  show ?thesis
    using a b ledger_ops_absent_noop [OF a b, of "''Audit''" clock0 None _ _ _ "''Rank first''"]
    by simp
qed

section \<open>Properties of the handoff store\<close>

lemma pushContinue_tasks:
  "map pt_task (fst (pushContinue ts (steps, p))) =
     map pt_task steps @ map (\<lambda>t. ''Continue: '' @ task t) ts"
  by (induction ts arbitrary: steps p) simp_all

lemma pushContinue_priorities:
  "map priority (fst (pushContinue ts (steps, p))) =
     map priority steps @ map (\<lambda>i. p + int i) [0..<length ts]"
proof (induction ts arbitrary: steps p)
  case Nil
  then show ?case by simp
next
  case (Cons t ts)
  have "map (\<lambda>i. p + int i) [0..<Suc (length ts)] =
        p # map (\<lambda>i. p + 1 + int i) [0..<length ts]"
    by (simp add: upt_conv_Cons map_Suc_upt [symmetric] del: upt_Suc)
  then show ?case using Cons.IH [of "steps @ [\<lparr>priority = p, pt_task = ''Continue: '' @ task t, pt_context = result t\<rparr>]" "p + 1"]
    by simp
qed

lemma pushContinue_counter: "snd (pushContinue ts (steps, p)) = p + int (length ts)"
  by (induction ts arbitrary: steps p) simp_all

lemma pushResolve_tasks:
  "map pt_task (fst (pushResolve bs (steps, p))) =
     map pt_task steps @ map (\<lambda>b. ''Resolve blocker: '' @ b) bs"
  by (induction bs arbitrary: steps p) simp_all

lemma pushResolve_priorities:
  "map priority (fst (pushResolve bs (steps, p))) =
     map priority steps @ map (\<lambda>i. p + int i) [0..<length bs]"
proof (induction bs arbitrary: steps p)
  case Nil
  then show ?case by simp
next
  case (Cons b bs)
  have "map (\<lambda>i. p + int i) [0..<Suc (length bs)] =
        p # map (\<lambda>i. p + 1 + int i) [0..<length bs]"
    by (simp add: upt_conv_Cons map_Suc_upt [symmetric] del: upt_Suc)
  then show ?case using Cons.IH [of "steps @ [\<lparr>priority = p, pt_task = ''Resolve blocker: '' @ b, pt_context = None\<rparr>]" "p + 1"]
    by simp
qed

lemma loops_tasks:
  "map pt_task (fst (pushResolve bs (pushContinue ts ([], 1)))) =
     map (\<lambda>t. ''Continue: '' @ task t) ts @ map (\<lambda>b. ''Resolve blocker: '' @ b) bs"
  using pushResolve_tasks [of bs "fst (pushContinue ts ([], 1))" "snd (pushContinue ts ([], 1))"]
  by (simp add: pushContinue_tasks)

lemma upt_shift:
  "map (\<lambda>i. p + int i) [0..<n] @ map (\<lambda>i. p + int n + int i) [0..<m] =
     map (\<lambda>i. p + int i) [0..<n + m]"
  by (induction m) (simp_all add: add.assoc)

lemma upt_from_one: "map (\<lambda>i. 1 + int i) [0..<n] = map int [1..<Suc n]"
  by (induction n) simp_all

lemma loops_priorities:
  "map priority (fst (pushResolve bs (pushContinue ts ([], 1)))) =
     map int [1..<Suc (length ts + length bs)]"
proof -
  have pc: "pushContinue ts ([], 1) = (fst (pushContinue ts ([], 1)), 1 + int (length ts))"
    by (simp add: prod_eq_iff pushContinue_counter)
  have "map priority (fst (pushResolve bs (pushContinue ts ([], 1)))) =
        map (\<lambda>i. 1 + int i) [0..<length ts] @ map (\<lambda>i. 1 + int (length ts) + int i) [0..<length bs]"
    apply (subst pc)
    apply (simp only: pushResolve_priorities pushContinue_priorities)
    apply simp
    done
  also have "\<dots> = map (\<lambda>i. 1 + int i) [0..<length ts + length bs]"
    by (rule upt_shift)
  also have "\<dots> = map int [1..<Suc (length ts + length bs)]"
    by (rule upt_from_one)
  finally show ?thesis .
qed

lemma loops_length:
  "length (fst (pushResolve bs (pushContinue ts ([], 1)))) = length ts + length bs"
  using arg_cong [OF loops_tasks [of bs ts], of length] by simp

lemma generateDefaultNextSteps_steps:
  "map pt_task (generateDefaultNextSteps l) =
     map (\<lambda>t. ''Continue: '' @ task t) (inProgress l)
     @ map (\<lambda>b. ''Resolve blocker: '' @ b) (blockers l)
     @ (case goal l of
          Some g \<Rightarrow>
            if inProgress l = [] \<and> blockers l = [] \<and> g \<noteq> []
            then [''Continue working on: '' @ g] else []
        | None \<Rightarrow> [])
   \<and> map priority (generateDefaultNextSteps l) =
       map int [1..<Suc (length (generateDefaultNextSteps l))]"
proof -
  obtain steps p where sp: "pushResolve (blockers l) (pushContinue (inProgress l) ([], 1)) = (steps, p)"
    by (cases "pushResolve (blockers l) (pushContinue (inProgress l) ([], 1))")
  have t: "map pt_task steps = map (\<lambda>t. ''Continue: '' @ task t) (inProgress l)
             @ map (\<lambda>b. ''Resolve blocker: '' @ b) (blockers l)"
    using loops_tasks [of "blockers l" "inProgress l"] sp by simp
  have n: "length steps = length (inProgress l) + length (blockers l)"
    using loops_length [of "blockers l" "inProgress l"] sp by simp
  have q: "map priority steps = map int [1..<Suc (length steps)]"
    using loops_priorities [of "blockers l" "inProgress l"] sp n by simp
  show ?thesis
  proof (cases "goal l")
    case None
    then show ?thesis using sp t q by (simp add: generateDefaultNextSteps_def)
  next
    case (Some g)
    show ?thesis
    proof (cases "length steps = 0 \<and> g \<noteq> []")
      case True
      then show ?thesis using sp t n Some by (simp add: generateDefaultNextSteps_def)
    next
      case False
      then show ?thesis using sp t n q Some by (auto simp: generateDefaultNextSteps_def)
    qed
  qed
qed

text \<open>
  C4: when \<open>createHandoff\<close> is called without a list of next steps on an open ledger,
  the handoff that it returns, which is also the handoff that it has stored for the
  brand of the ledger, has the default next steps: one step \<open>Continue: <task>\<close> per
  in-progress task, in the order of the list, then one step
  \<open>Resolve blocker: <blocker>\<close> per blocker, and, only when both lists are empty and a
  goal is set (a goal that is not the empty text, which JavaScript takes for no goal),
  the one step \<open>Continue working on: <goal>\<close>; the priorities of the steps are
  1, 2, 3, ... in the order of the list. So an empty ledger with a goal gives that
  single step, and an empty ledger without a goal gives no step. The call returns a
  handoff whenever the file system takes the write.
\<close>

theorem createHandoff_default_next_steps:
  assumes "fst (getLedger w) = Some l"
  shows "(fs_ok w \<longrightarrow> (\<exists>h. fst (createHandoff None customResumePrompt clk w) = Some h))
       \<and> (\<forall>h. fst (createHandoff None customResumePrompt clk w) = Some h \<longrightarrow>
             getHandoff (brandId l) (snd (createHandoff None customResumePrompt clk w)) = Some h
             \<and> nextSteps h = generateDefaultNextSteps l
             \<and> map pt_task (nextSteps h) =
                 map (\<lambda>t. ''Continue: '' @ task t) (inProgress l)
                 @ map (\<lambda>b. ''Resolve blocker: '' @ b) (blockers l)
                 @ (case goal l of
                      Some g \<Rightarrow>
                        if inProgress l = [] \<and> blockers l = [] \<and> g \<noteq> []
                        then [''Continue working on: '' @ g] else []
                    | None \<Rightarrow> [])
             \<and> map priority (nextSteps h) = map int [1..<Suc (length (nextSteps h))])"
proof -
  let ?w1 = "w\<lparr>currentLedger := Some l\<rparr>"
  have g: "getLedger w = (Some l, ?w1)" using assms by (rule getLedger_Some)
  have g1: "getLedger ?w1 = (Some l, ?w1)" by (simp add: getLedger_def)
  have stored: "getHandoff (brandId l) (snd (createHandoff None customResumePrompt clk w)) = Some h
                \<and> nextSteps h = generateDefaultNextSteps l"
    if "fst (createHandoff None customResumePrompt clk w) = Some h" for h
    using that g g1
    by (auto simp: createHandoff_def getSessionSummary_def writeYaml_def getHandoff_def Let_def
        split: if_splits)
  have returns: "\<exists>h. fst (createHandoff None customResumePrompt clk w) = Some h" if "fs_ok w"
    using that g g1
    by (simp add: createHandoff_def getSessionSummary_def writeYaml_def Let_def)
  show ?thesis
    using stored returns generateDefaultNextSteps_steps [of l] by auto
qed

text \<open>
  Instances: a ledger that was just opened with a goal, one opened without a goal, and
  one with a task in progress and a blocker.
\<close>

theorem createHandoff_default_next_steps_witness:
  "fst (getLedger (snd (initLedger ''acme'' ''Acme'' (Some ''Rank first'') clock0 freshWorld)))
     = Some sampleLedger
   \<and> fs_ok (snd (initLedger ''acme'' ''Acme'' (Some ''Rank first'') clock0 freshWorld))
   \<and> (case fst (createHandoff None None clock1
                  (snd (initLedger ''acme'' ''Acme'' (Some ''Rank first'') clock0 freshWorld))) of
         Some h \<Rightarrow> map pt_task (nextSteps h) = [''Continue working on: Rank first'']
                   \<and> map priority (nextSteps h) = [1]
       | None \<Rightarrow> False)
   \<and> (case fst (createHandoff None None clock1
                  (snd (initLedger ''acme'' ''Acme'' None clock0 freshWorld))) of
         Some h \<Rightarrow> nextSteps h = []
       | None \<Rightarrow> False)
   \<and> (case fst (createHandoff None None clock1
                  (addBlocker ''No access''
                     (addInProgressTask ''Audit'' clock0
                        (snd (initLedger ''acme'' ''Acme'' (Some ''Rank first'') clock0 freshWorld))))) of
         Some h \<Rightarrow> map pt_task (nextSteps h) = [''Continue: Audit'', ''Resolve blocker: No access'']
                   \<and> map priority (nextSteps h) = [1, 2]
       | None \<Rightarrow> False)"
proof -
  let ?w0 = "snd (initLedger ''acme'' ''Acme'' (Some ''Rank first'') clock0 freshWorld)"
  let ?w1 = "snd (initLedger ''acme'' ''Acme'' None clock0 freshWorld)"
  let ?w2 = "addBlocker ''No access'' (addInProgressTask ''Audit'' clock0 ?w0)"
  let ?l2 = "sampleLedger\<lparr>inProgress := [\<lparr>task = ''Audit'', timestamp = 1700000000000, result = None\<rparr>],
                          blockers := [''No access'']\<rparr>"
  have g0: "fst (getLedger ?w0) = Some sampleLedger"
    by (simp add: ledger_eval sampleLedger_def)
  have g1: "fst (getLedger ?w1) = Some (sampleLedger\<lparr>goal := None\<rparr>)"
    by (simp add: ledger_eval sampleLedger_def)
  have g2: "fst (getLedger ?w2) = Some ?l2"
    by (simp add: ledger_eval sampleLedger_def)
  have f0: "fs_ok ?w0" and f1: "fs_ok ?w1" and f2: "fs_ok ?w2"
    by (simp_all add: ledger_eval)
  have ret: "\<exists>h. fst (createHandoff None None clock1 W) = Some h"
    if "fst (getLedger W) = Some L" and "fs_ok W" for W L
    using createHandoff_default_next_steps [OF that(1), of None clock1] that(2) by blast
  have shape: "map pt_task (nextSteps h) =
                 map (\<lambda>t. ''Continue: '' @ task t) (inProgress L)
                 @ map (\<lambda>b. ''Resolve blocker: '' @ b) (blockers L)
                 @ (case goal L of
                      Some g \<Rightarrow>
                        if inProgress L = [] \<and> blockers L = [] \<and> g \<noteq> []
                        then [''Continue working on: '' @ g] else []
                    | None \<Rightarrow> [])"
    and prios: "map priority (nextSteps h) = map int [1..<Suc (length (nextSteps h))]"
    if "fst (getLedger W) = Some L" and "fst (createHandoff None None clock1 W) = Some h"
    for W L h
    using createHandoff_default_next_steps [OF that(1), of None clock1] that(2) by blast+
  have a: "case fst (createHandoff None None clock1 ?w0) of
             Some h \<Rightarrow> map pt_task (nextSteps h) = [''Continue working on: Rank first'']
                       \<and> map priority (nextSteps h) = [1]
           | None \<Rightarrow> False"
  proof -
    obtain h where h: "fst (createHandoff None None clock1 ?w0) = Some h"
      using ret [OF g0 f0] by blast
    have t: "map pt_task (nextSteps h) = [''Continue working on: Rank first'']"
      using shape [OF g0 h] by (simp add: sampleLedger_def)
    have "length (nextSteps h) = 1" using arg_cong [OF t, of length] by simp
    then have "map priority (nextSteps h) = [1]" using prios [OF g0 h] by simp
    then show ?thesis using h t by simp
  qed
  have b: "case fst (createHandoff None None clock1 ?w1) of
             Some h \<Rightarrow> nextSteps h = []
           | None \<Rightarrow> False"
  proof -
    obtain h where h: "fst (createHandoff None None clock1 ?w1) = Some h"
      using ret [OF g1 f1] by blast
    have "map pt_task (nextSteps h) = []"
      using shape [OF g1 h] by (simp add: sampleLedger_def)
    then show ?thesis using h by simp
  qed
  have c: "case fst (createHandoff None None clock1 ?w2) of
             Some h \<Rightarrow> map pt_task (nextSteps h) = [''Continue: Audit'', ''Resolve blocker: No access'']
                       \<and> map priority (nextSteps h) = [1, 2]
           | None \<Rightarrow> False"
  proof -
    obtain h where h: "fst (createHandoff None None clock1 ?w2) = Some h"
      using ret [OF g2 f2] by blast
    have t: "map pt_task (nextSteps h) = [''Continue: Audit'', ''Resolve blocker: No access'']"
      using shape [OF g2 h] by (simp add: sampleLedger_def)
    have "length (nextSteps h) = 2" using arg_cong [OF t, of length] by simp
    then have "map priority (nextSteps h) = [1, 2]"
      using prios [OF g2 h] by (simp add: upt_rec)
    then show ?thesis using h t by simp
  qed
  show ?thesis using g0 f0 a b c by simp
qed

lemma renumber_length [simp]: "length (renumber i xs) = length xs"
  by (induction xs arbitrary: i) simp_all

lemma renumber_nth:
  "k < length xs \<Longrightarrow> renumber i xs ! k = (xs ! k)\<lparr>priority := int (i + k) + 1\<rparr>"
proof (induction xs arbitrary: i k)
  case Nil
  then show ?case by simp
next
  case (Cons x xs)
  then show ?case by (cases k) simp_all
qed

lemma splice1_length: "i < length xs \<Longrightarrow> Suc (length (splice1 i xs)) = length xs"
  by (simp add: splice1_def)

lemma splice1_nth:
  "i < length xs \<Longrightarrow> Suc k < length xs \<Longrightarrow>
   splice1 i xs ! k = xs ! (if k < i then k else Suc k)"
  by (simp add: splice1_def nth_append min_def)

text \<open>
  C10: for a stored handoff, \<open>removeNextStep\<close> with an index that is negative or at
  least the number of next steps returns the stored handoff and leaves the state, and so
  every file, as it was. With an index inside the list and a file system that takes the
  write, it stores and returns the handoff whose next steps are the old ones without the
  step at the index, each with its position counted from 1 as its priority. When the
  write fails it returns nothing and leaves the state as it was.
\<close>

theorem removeNextStep_frame_and_renumber:
  assumes "getHandoff bid w = Some h"
  shows "(taskIndex < 0 \<or> int (length (nextSteps h)) \<le> taskIndex \<longrightarrow>
            removeNextStep bid taskIndex w = (Some h, w))
       \<and> (0 \<le> taskIndex \<and> taskIndex < int (length (nextSteps h)) \<and> fs_ok w \<longrightarrow>
            (\<exists>steps. removeNextStep bid taskIndex w =
                 (Some (h\<lparr>nextSteps := steps\<rparr>),
                  w\<lparr>handoff_files := (handoff_files w)(bid \<mapsto> h\<lparr>nextSteps := steps\<rparr>)\<rparr>)
               \<and> Suc (length steps) = length (nextSteps h)
               \<and> (\<forall>k < length steps.
                     steps ! k =
                       (nextSteps h ! (if k < nat taskIndex then k else Suc k))
                         \<lparr>priority := int k + 1\<rparr>)))
       \<and> (0 \<le> taskIndex \<and> taskIndex < int (length (nextSteps h)) \<and> \<not> fs_ok w \<longrightarrow>
            removeNextStep bid taskIndex w = (None, w))"
proof (intro conjI impI)
  assume "taskIndex < 0 \<or> int (length (nextSteps h)) \<le> taskIndex"
  then show "removeNextStep bid taskIndex w = (Some h, w)"
    using assms by (auto simp: removeNextStep_def)
next
  assume a: "0 \<le> taskIndex \<and> taskIndex < int (length (nextSteps h)) \<and> fs_ok w"
  let ?steps = "renumber 0 (splice1 (nat taskIndex) (nextSteps h))"
  have i: "nat taskIndex < length (nextSteps h)" using a by linarith
  have r: "removeNextStep bid taskIndex w =
             (Some (h\<lparr>nextSteps := ?steps\<rparr>),
              w\<lparr>handoff_files := (handoff_files w)(bid \<mapsto> h\<lparr>nextSteps := ?steps\<rparr>)\<rparr>)"
    using assms a by (simp add: removeNextStep_def writeYaml_def Let_def)
  have n: "Suc (length ?steps) = length (nextSteps h)"
    using splice1_length [OF i] by simp
  have "?steps ! k = (nextSteps h ! (if k < nat taskIndex then k else Suc k))\<lparr>priority := int k + 1\<rparr>"
    if "k < length ?steps" for k
  proof -
    have "Suc k < length (nextSteps h)" using that n by simp
    then show ?thesis using that i by (simp add: renumber_nth splice1_nth)
  qed
  then show "\<exists>steps. removeNextStep bid taskIndex w =
                 (Some (h\<lparr>nextSteps := steps\<rparr>),
                  w\<lparr>handoff_files := (handoff_files w)(bid \<mapsto> h\<lparr>nextSteps := steps\<rparr>)\<rparr>)
               \<and> Suc (length steps) = length (nextSteps h)
               \<and> (\<forall>k < length steps.
                     steps ! k =
                       (nextSteps h ! (if k < nat taskIndex then k else Suc k))
                         \<lparr>priority := int k + 1\<rparr>)"
    using r n by blast
next
  assume "0 \<le> taskIndex \<and> taskIndex < int (length (nextSteps h)) \<and> \<not> fs_ok w"
  then show "removeNextStep bid taskIndex w = (None, w)"
    using assms by (simp add: removeNextStep_def writeYaml_def Let_def)
qed

text \<open>
  Instances on a handoff with three steps: the indexes 3 and -1 change nothing, the
  index 0 leaves the second and third step with the priorities 1 and 2.
\<close>

theorem removeNextStep_frame_and_renumber_witness:
  "getHandoff ''acme'' (freshWorld\<lparr>handoff_files := [''acme'' \<mapsto> sampleHandoff]\<rparr>) = Some sampleHandoff
   \<and> removeNextStep ''acme'' 3 (freshWorld\<lparr>handoff_files := [''acme'' \<mapsto> sampleHandoff]\<rparr>)
       = (Some sampleHandoff, freshWorld\<lparr>handoff_files := [''acme'' \<mapsto> sampleHandoff]\<rparr>)
   \<and> removeNextStep ''acme'' (- 1) (freshWorld\<lparr>handoff_files := [''acme'' \<mapsto> sampleHandoff]\<rparr>)
       = (Some sampleHandoff, freshWorld\<lparr>handoff_files := [''acme'' \<mapsto> sampleHandoff]\<rparr>)
   \<and> map_option nextSteps
        (fst (removeNextStep ''acme'' 0 (freshWorld\<lparr>handoff_files := [''acme'' \<mapsto> sampleHandoff]\<rparr>)))
       = Some [\<lparr>priority = 1, pt_task = ''Brief'', pt_context = None\<rparr>,
               \<lparr>priority = 2, pt_task = ''Calendar'', pt_context = None\<rparr>]"
proof -
  let ?w = "freshWorld\<lparr>handoff_files := [''acme'' \<mapsto> sampleHandoff]\<rparr>"
  have g: "getHandoff ''acme'' ?w = Some sampleHandoff" by (simp add: getHandoff_def)
  have n: "length (nextSteps sampleHandoff) = 3" by (simp add: sampleHandoff_def)
  have f: "fs_ok ?w" by (simp add: freshWorld_def)
  have a: "removeNextStep ''acme'' 3 ?w = (Some sampleHandoff, ?w)"
    using removeNextStep_frame_and_renumber [OF g, of 3] n by simp
  have b: "removeNextStep ''acme'' (- 1) ?w = (Some sampleHandoff, ?w)"
    using removeNextStep_frame_and_renumber [OF g, of "- 1"] by simp
  obtain steps where s: "fst (removeNextStep ''acme'' 0 ?w) = Some (sampleHandoff\<lparr>nextSteps := steps\<rparr>)"
    "Suc (length steps) = length (nextSteps sampleHandoff)"
    "\<forall>k < length steps. steps ! k = (nextSteps sampleHandoff ! (if k < nat 0 then k else Suc k))\<lparr>priority := int k + 1\<rparr>"
    using removeNextStep_frame_and_renumber [OF g, of 0] n f by auto
  have l2: "length steps = 2" using s(2) n by simp
  have "steps ! 0 = \<lparr>priority = 1, pt_task = ''Brief'', pt_context = None\<rparr>"
    and "steps ! 1 = \<lparr>priority = 2, pt_task = ''Calendar'', pt_context = None\<rparr>"
    using s(3) l2 by (simp_all add: sampleHandoff_def)
  then have "steps = [\<lparr>priority = 1, pt_task = ''Brief'', pt_context = None\<rparr>,
               \<lparr>priority = 2, pt_task = ''Calendar'', pt_context = None\<rparr>]"
    using l2 by (simp add: list_eq_iff_nth_eq less_Suc_eq numeral_2_eq_2)
  then show ?thesis using g a b s(1) by simp
qed

section \<open>Properties of the archival memory\<close>

lemma loadLearnings_saved:
  "fs_ok w \<Longrightarrow> loadLearnings (snd (saveLearnings ls w)) = ls"
  by (simp add: loadLearnings_def saveLearnings_def writeYaml_def)

text \<open>
  C8: when a learning with the identifier is stored and the write goes through,
  \<open>promoteToGlobal\<close> returns that learning (the first with the identifier) with its
  brand set to \<open>global\<close> and nothing else changed, and afterwards
  \<open>getBrandLearnings\<close> has it in its result for every brand id.
\<close>

theorem promoteToGlobal_visible_to_every_brand:
  assumes "fs_ok w" and "list_ex (\<lambda>l. l_id l = learningId) (loadLearnings w)"
  shows "\<exists>x. fst (promoteToGlobal learningId w) = Some x
           \<and> l_id x = learningId \<and> l_brand x = ''global''
           \<and> list_ex (\<lambda>y. x = y\<lparr>l_brand := ''global''\<rparr>) (loadLearnings w)
           \<and> (\<forall>b. x \<in> set (getBrandLearnings b (snd (promoteToGlobal learningId w))))"
proof -
  obtain i where i: "findIndex (\<lambda>l. l_id l = learningId) (loadLearnings w) = Some i"
    using assms(2) by (cases "findIndex (\<lambda>l. l_id l = learningId) (loadLearnings w)")
      (simp_all add: findIndex_None)
  then have il: "i < length (loadLearnings w)" and id: "l_id (loadLearnings w ! i) = learningId"
    by (auto dest: findIndex_Some)
  let ?x = "(loadLearnings w ! i)\<lparr>l_brand := ''global''\<rparr>"
  have r: "promoteToGlobal learningId w =
             (Some ?x, snd (saveLearnings ((loadLearnings w)[i := ?x]) w))"
    using i by (simp add: promoteToGlobal_def Let_def)
  have "?x \<in> set ((loadLearnings w)[i := ?x])"
    using il by (rule set_update_memI)
  then have "?x \<in> set (getBrandLearnings b (snd (promoteToGlobal learningId w)))" for b
    using r assms(1) by (simp add: getBrandLearnings_def loadLearnings_saved)
  moreover have "list_ex (\<lambda>y. ?x = y\<lparr>l_brand := ''global''\<rparr>) (loadLearnings w)"
    using il by (auto simp: list_ex_iff)
  ultimately show ?thesis using r id by simp
qed

text \<open>
  An instance: a learning of the brand \<open>acme\<close> is not among the learnings of
  \<open>zenith\<close> before it is promoted, and is afterwards.
\<close>

theorem promoteToGlobal_visible_to_every_brand_witness:
  "fs_ok (freshWorld\<lparr>learnings_file := Some [sampleLearning]\<rparr>)
   \<and> list_ex (\<lambda>l. l_id l = ''learn-1'') (loadLearnings (freshWorld\<lparr>learnings_file := Some [sampleLearning]\<rparr>))
   \<and> getBrandLearnings ''zenith'' (freshWorld\<lparr>learnings_file := Some [sampleLearning]\<rparr>) = []
   \<and> getBrandLearnings ''zenith''
        (snd (promoteToGlobal ''learn-1'' (freshWorld\<lparr>learnings_file := Some [sampleLearning]\<rparr>)))
       = [sampleLearning\<lparr>l_brand := ''global''\<rparr>]"
proof -
  let ?w = "freshWorld\<lparr>learnings_file := Some [sampleLearning]\<rparr>"
  have a: "fs_ok ?w" by (simp add: freshWorld_def)
  have l: "loadLearnings ?w = [sampleLearning]" by (simp add: loadLearnings_def)
  have b: "list_ex (\<lambda>l. l_id l = ''learn-1'') (loadLearnings ?w)"
    by (simp add: loadLearnings_def sampleLearning_def)
  have c: "getBrandLearnings ''zenith'' ?w = []"
    by (simp add: getBrandLearnings_def loadLearnings_def sampleLearning_def)
  obtain x where x: "list_ex (\<lambda>y. x = y\<lparr>l_brand := ''global''\<rparr>) (loadLearnings ?w)"
    "x \<in> set (getBrandLearnings ''zenith'' (snd (promoteToGlobal ''learn-1'' ?w)))"
    using promoteToGlobal_visible_to_every_brand [OF a b] by blast
  have "length (getBrandLearnings ''zenith'' (snd (promoteToGlobal ''learn-1'' ?w))) \<le> 1"
    using a by (simp add: getBrandLearnings_def promoteToGlobal_def Let_def l
        loadLearnings_saved)
  then have "getBrandLearnings ''zenith'' (snd (promoteToGlobal ''learn-1'' ?w)) = [x]"
    using x(2) by (cases "getBrandLearnings ''zenith'' (snd (promoteToGlobal ''learn-1'' ?w))") auto
  moreover have "x = sampleLearning\<lparr>l_brand := ''global''\<rparr>" using x(1) l by simp
  ultimately show ?thesis using a b c by simp
qed

lemma pushUnseen_ok: "seenOk st \<Longrightarrow> seenOk (pushUnseen ls st)"
proof (induction ls arbitrary: st)
  case Nil
  then show ?case by (cases st) simp
next
  case (Cons l ls)
  obtain relevant seen where st: "st = (relevant, seen)" by (cases st)
  show ?case
  proof (cases "l_id l \<in> seen")
    case True
    then show ?thesis using Cons st by simp
  next
    case False
    then have "seenOk (relevant @ [l], insert (l_id l) seen)"
      using Cons.prems st by (auto simp: seenOk_def)
    then show ?thesis using Cons.IH False st by simp
  qed
qed

lemma matchKeywords_ok: "seenOk st \<Longrightarrow> seenOk (matchKeywords ks bl st)"
proof (induction ks arbitrary: st)
  case Nil
  then show ?case by (cases st) simp
next
  case (Cons k ks)
  then show ?case by (cases st) (simp add: pushUnseen_ok Let_def)
qed

lemma matchActivityKeywords_ok: "seenOk st \<Longrightarrow> seenOk (matchActivityKeywords ks bl st)"
proof (induction ks arbitrary: st)
  case Nil
  then show ?case by (cases st) simp
next
  case (Cons k ks)
  then show ?case by (cases st) (simp add: pushUnseen_ok Let_def)
qed

lemma set_insertBy: "set (insertBy cmp x ys) = insert x (set ys)"
  by (induction ys) auto

lemma set_sortBy: "set (sortBy cmp xs) = set xs"
  by (induction xs) (simp_all add: sortBy_def set_insertBy)

lemma distinct_insertBy:
  "distinct (map f (insertBy cmp x ys)) \<longleftrightarrow> f x \<notin> f ` set ys \<and> distinct (map f ys)"
  by (induction ys) (auto simp: set_insertBy)

lemma distinct_sortBy: "distinct (map f (sortBy cmp xs)) \<longleftrightarrow> distinct (map f xs)"
proof (induction xs)
  case Nil
  then show ?case by (simp add: sortBy_def)
next
  case (Cons x xs)
  have "sortBy cmp (x # xs) = insertBy cmp x (sortBy cmp xs)" by (simp add: sortBy_def)
  then show ?case using Cons by (simp add: distinct_insertBy set_sortBy)
qed

lemma sorted_insertBy:
  assumes total: "\<And>a b. cmp a b \<le> 0 \<or> cmp b a \<le> 0"
    and trans: "\<And>a b c. cmp a b \<le> 0 \<Longrightarrow> cmp b c \<le> 0 \<Longrightarrow> cmp a c \<le> 0"
    and "sorted_wrt (\<lambda>a b. cmp a b \<le> 0) ys"
  shows "sorted_wrt (\<lambda>a b. cmp a b \<le> (0::int)) (insertBy cmp x ys)"
  using assms(3)
proof (induction ys)
  case Nil
  then show ?case by simp
next
  case (Cons y ys)
  show ?case
  proof (cases "cmp x y \<le> 0")
    case True
    then have "\<forall>z \<in> set ys. cmp x z \<le> 0" using Cons.prems trans by auto
    then show ?thesis using True Cons.prems by simp
  next
    case False
    then have "cmp y x \<le> 0" using total [of x y] by simp
    then show ?thesis using False Cons by (auto simp: set_insertBy)
  qed
qed

lemma sorted_sortBy:
  assumes "\<And>a b. cmp a b \<le> 0 \<or> cmp b a \<le> 0"
    and "\<And>a b c. cmp a b \<le> 0 \<Longrightarrow> cmp b c \<le> 0 \<Longrightarrow> cmp a c \<le> 0"
  shows "sorted_wrt (\<lambda>a b. cmp a b \<le> (0::int)) (sortBy cmp xs)"
proof (induction xs)
  case Nil
  then show ?case by (simp add: sortBy_def)
next
  case (Cons x xs)
  have "sortBy cmp (x # xs) = insertBy cmp x (sortBy cmp xs)" by (simp add: sortBy_def)
  then show ?case using sorted_insertBy [of cmp, OF assms Cons] by simp
qed

lemma confidenceBefore_iff: "confidenceBefore x y \<longleftrightarrow> confOrder x < confOrder y"
  by (cases x; cases y) simp_all

lemma confOrder_inj: "confOrder x = confOrder y \<longleftrightarrow> x = y"
  by (cases x; cases y) simp_all

lemma compareLearnings_le: "compareLearnings a b \<le> 0 \<longleftrightarrow> rankedBefore a b"
  by (auto simp: compareLearnings_def rankedBefore_def confidenceBefore_iff localeCompare_def
      confOrder_inj [symmetric] Let_def)

lemma rankedBefore_total: "rankedBefore a b \<or> rankedBefore b a"
  by (auto simp: rankedBefore_def confidenceBefore_iff confOrder_inj [symmetric])

lemma rankedBefore_trans: "rankedBefore a b \<Longrightarrow> rankedBefore b c \<Longrightarrow> rankedBefore a c"
  by (auto simp: rankedBefore_def confidenceBefore_iff)

lemma sorted_compareLearnings: "sorted_wrt rankedBefore (sortBy compareLearnings xs)"
proof -
  have "sorted_wrt (\<lambda>a b. compareLearnings a b \<le> 0) (sortBy compareLearnings xs)"
  proof (rule sorted_sortBy)
    fix a b
    show "compareLearnings a b \<le> 0 \<or> compareLearnings b a \<le> 0"
      using rankedBefore_total [of a b] by (simp add: compareLearnings_le)
  next
    fix a b c
    assume "compareLearnings a b \<le> 0" and "compareLearnings b c \<le> 0"
    then show "compareLearnings a c \<le> 0"
      using rankedBefore_trans [of a b c] by (simp add: compareLearnings_le)
  qed
  then show ?thesis by (simp add: compareLearnings_le [abs_def])
qed

lemma activityMap_error: "activityMap a = Inl e \<Longrightarrow> a \<in> set inheritedNames"
  by (simp add: activityMap_def split: if_splits)

text \<open>
  C6: when the call gives a non-empty activity, a non-empty category or at least one
  keyword (the test the code makes before it falls back to the last five learnings), the
  list that \<open>getRelevantLearnings\<close> returns has no identifier twice and is in the order
  high, medium, low, and within one confidence in the order of descending dates. The call
  returns a list unless the activity is the name of a property that every object
  inherits.
\<close>

theorem relevant_learnings_distinct_and_ranked:
  assumes "truthy (rc_activity ctx) \<or> truthy (rc_category ctx)
           \<or> (case rc_keywords ctx of Some ks \<Rightarrow> ks \<noteq> [] | None \<Rightarrow> False)"
  shows "((case rc_activity ctx of Some a \<Rightarrow> a \<notin> set inheritedNames | None \<Rightarrow> True) \<longrightarrow>
            (\<exists>xs. getRelevantLearnings bid ctx w = Inr xs))
       \<and> (\<forall>xs. getRelevantLearnings bid ctx w = Inr xs \<longrightarrow>
             distinct (map l_id xs) \<and> sorted_wrt rankedBefore xs)"
proof -
  let ?bl = "getBrandLearnings bid w"
  define st1 where "st1 =
    (case rc_category ctx of
       Some c \<Rightarrow>
         if truthy (Some c)
         then pushUnseen
                (filter (\<lambda>l. includes_str (toLowerCase (l_category l)) (toLowerCase c)) ?bl)
                ([], {})
         else ([], {})
     | None \<Rightarrow> ([], {}))"
  define st2 where "st2 =
    (case rc_keywords ctx of
       Some ks \<Rightarrow> if length ks \<noteq> 0 then matchKeywords ks ?bl st1 else st1
     | None \<Rightarrow> st1)"
  have ok0: "seenOk ([], {})" by (simp add: seenOk_def)
  have ok1: "seenOk st1"
    unfolding st1_def using ok0 by (auto split: option.splits intro: pushUnseen_ok)
  have ok2: "seenOk st2"
    unfolding st2_def using ok1 by (auto split: option.splits intro: matchKeywords_ok)
  have gate: "\<not> (\<not> truthy (rc_activity ctx) \<and> \<not> truthy (rc_category ctx)
            \<and> (case rc_keywords ctx of Some ks \<Rightarrow> length ks = 0 | None \<Rightarrow> True))"
    using assms by (auto split: option.splits)
  have shape: "getRelevantLearnings bid ctx w =
      (case rc_activity ctx of
         Some a \<Rightarrow>
           if truthy (Some a)
           then (case activityMap a of
                   Inl e \<Rightarrow> Inl e
                 | Inr activityKeywords \<Rightarrow>
                     Inr (sortBy compareLearnings
                            (fst (matchActivityKeywords activityKeywords ?bl st2))))
           else Inr (sortBy compareLearnings (fst st2))
       | None \<Rightarrow> Inr (sortBy compareLearnings (fst st2)))"
    unfolding getRelevantLearnings_def Let_def st1_def [symmetric] st2_def [symmetric]
    using gate by (simp only: if_False)
  have good: "distinct (map l_id (sortBy compareLearnings (fst st)))
              \<and> sorted_wrt rankedBefore (sortBy compareLearnings (fst st))"
    if "seenOk st" for st
    using that by (simp add: distinct_sortBy sorted_compareLearnings seenOk_def)
  have returns: "\<exists>xs. getRelevantLearnings bid ctx w = Inr xs"
    if "case rc_activity ctx of Some a \<Rightarrow> a \<notin> set inheritedNames | None \<Rightarrow> True"
    using that unfolding shape
    by (auto split: option.splits sum.splits dest: activityMap_error)
  have ranked: "distinct (map l_id xs) \<and> sorted_wrt rankedBefore xs"
    if h: "getRelevantLearnings bid ctx w = Inr xs" for xs
  proof (cases "rc_activity ctx")
    case None
    then show ?thesis using h good [OF ok2] unfolding shape by auto
  next
    case (Some a)
    show ?thesis
    proof (cases "truthy (Some a)")
      case False
      then show ?thesis using h Some good [OF ok2] unfolding shape by auto
    next
      case True
      then obtain aks where "activityMap a = Inr aks"
        and "xs = sortBy compareLearnings (fst (matchActivityKeywords aks ?bl st2))"
        using h Some unfolding shape by (auto split: sum.splits)
      then show ?thesis using good [OF matchActivityKeywords_ok [OF ok2]] by simp
    qed
  qed
  show ?thesis using returns ranked by blast
qed

text \<open>
  An instance with a category and a keyword that match the same learnings.
\<close>

theorem relevant_learnings_distinct_and_ranked_witness:
  "truthy (rc_category \<lparr>rc_activity = None, rc_category = Some ''seo'', rc_keywords = Some [''keywords'']\<rparr>)
   \<and> map_sum id (map l_id)
        (getRelevantLearnings ''acme''
           \<lparr>rc_activity = None, rc_category = Some ''seo'', rc_keywords = Some [''keywords'']\<rparr>
           (freshWorld\<lparr>learnings_file := Some sampleLearnings\<rparr>))
       = Inr [''learn-3'', ''learn-2'', ''learn-1'']
   \<and> (case getRelevantLearnings ''acme''
              \<lparr>rc_activity = None, rc_category = Some ''seo'', rc_keywords = Some [''keywords'']\<rparr>
              (freshWorld\<lparr>learnings_file := Some sampleLearnings\<rparr>) of
         Inr xs \<Rightarrow> distinct (map l_id xs) \<and> sorted_wrt rankedBefore xs
       | Inl e \<Rightarrow> False)"
proof -
  let ?ctx = "\<lparr>rc_activity = None, rc_category = Some ''seo'', rc_keywords = Some [''keywords'']\<rparr>"
  let ?w = "freshWorld\<lparr>learnings_file := Some sampleLearnings\<rparr>"
  have c: "truthy (rc_activity ?ctx) \<or> truthy (rc_category ?ctx)
           \<or> (case rc_keywords ?ctx of Some ks \<Rightarrow> ks \<noteq> [] | None \<Rightarrow> False)"
    by simp
  have e: "map_sum id (map l_id) (getRelevantLearnings ''acme'' ?ctx ?w)
             = Inr [''learn-3'', ''learn-2'', ''learn-1'']"
    by (simp add: getRelevantLearnings_def getBrandLearnings_def loadLearnings_def
        sampleLearnings_def sampleLearning_def Let_def sortBy_def compareLearnings_def
        localeCompare_def mentions_def toLowerCase_def toLowerCase_char_def)
  show ?thesis
    using e relevant_learnings_distinct_and_ranked [OF c, of "''acme''" ?w]
    by (auto split: sum.splits)
qed

section \<open>Properties of the brand registry and the session manager\<close>

text \<open>
  C7: for a stored brand and any payload, \<open>updateBrand\<close> either returns and stores a
  brand whose \<open>id\<close> and \<open>created\<close> are those of the brand before the update,
  whatever the payload has for them, or, when the write fails, throws and leaves the
  state as it was. It returns a brand whenever the file system takes the write.
\<close>

theorem updateBrand_keeps_id_and_created:
  assumes "getBrand bid w = Some b"
  shows "(case updateBrand bid updates clk w of
            (Inr b', w') \<Rightarrow>
              b_id b' = b_id b \<and> b_created b' = b_created b \<and> getBrand bid w' = Some b'
          | (Inl e, w') \<Rightarrow> e = FailedToUpdateBrand \<and> w' = w)
       \<and> (fs_ok w \<longrightarrow> (\<exists>b'. fst (updateBrand bid updates clk w) = Inr b'))"
  using assms
  by (simp add: updateBrand_def writeYaml_def getBrand_def Let_def)

text \<open>
  An instance whose payload has another \<open>id\<close> and another \<open>created\<close>.
\<close>

theorem updateBrand_keeps_id_and_created_witness:
  "getBrand ''acme'' acmeWorld = Some acmeBrand
   \<and> fs_ok acmeWorld
   \<and> map_sum id b_id (fst (updateBrand ''acme''
         (noUpdates\<lparr>u_id := Some ''zenith'', u_created := Some ''1999-01-01'', u_name := Some ''Zenith''\<rparr>)
         clock0 acmeWorld)) = Inr ''acme''
   \<and> map_sum id b_created (fst (updateBrand ''acme''
         (noUpdates\<lparr>u_id := Some ''zenith'', u_created := Some ''1999-01-01'', u_name := Some ''Zenith''\<rparr>)
         clock0 acmeWorld)) = Inr ''2023-10-01''"
proof -
  let ?u = "noUpdates\<lparr>u_id := Some ''zenith'', u_created := Some ''1999-01-01'', u_name := Some ''Zenith''\<rparr>"
  have g: "getBrand ''acme'' acmeWorld = Some acmeBrand"
    by (simp add: getBrand_def acmeWorld_def)
  have f: "fs_ok acmeWorld" by (simp add: acmeWorld_def freshWorld_def)
  have "b_id acmeBrand = ''acme''" and "b_created acmeBrand = ''2023-10-01''"
    by (simp_all add: acmeBrand_def)
  then show ?thesis
    using g f updateBrand_keeps_id_and_created [OF g, of ?u clock0]
    by (auto split: prod.splits sum.splits)
qed

lemma squeeze_keep: "c \<noteq> CHR ''-'' \<Longrightarrow> squeeze (c # xs) = c # squeeze xs"
  by (cases xs) simp_all

lemma isAlnum_hyphen: "isAlnum c \<Longrightarrow> c \<noteq> CHR ''-''"
  by (auto simp: isAlnum_def)

lemma squeeze_run:
  "squeeze (CHR ''-'' # map (\<lambda>c. if isAlnum c then c else CHR ''-'') cs) =
     CHR ''-'' # squeeze (map (\<lambda>c. if isAlnum c then c else CHR ''-'')
                            (dropWhile (\<lambda>d. \<not> isAlnum d) cs))"
proof (induction cs)
  case Nil
  then show ?case by simp
next
  case (Cons d ds)
  then show ?case by (simp add: isAlnum_hyphen)
qed

lemma hyphenate_squeeze:
  "hyphenate s = squeeze (map (\<lambda>c. if isAlnum c then c else CHR ''-'') s)"
proof (induction s rule: hyphenate.induct)
  case 1
  then show ?case by simp
next
  case (2 c cs)
  show ?case
  proof (cases "isAlnum c")
    case True
    then show ?thesis using 2 by (simp add: squeeze_keep isAlnum_hyphen)
  next
    case False
    then show ?thesis using 2 by (simp add: squeeze_run)
  qed
qed

lemma generateId_slugOf: "generateId name = slugOf name"
  by (simp add: generateId_def slugOf_def hyphenate_squeeze)

text \<open>
  C3, amended: when no brand is stored under the id derived from the name and the file
  system takes the writes, \<open>createBrand\<close> returns a brand, and \<open>getBrand\<close> with the
  derived id then returns a brand with the name as given, with the website as given but
  for a leading \<open>http://\<close> or \<open>https://\<close> and one trailing slash, which are taken
  off, and with the derived id, which is the name in lower case, with one hyphen for each
  run of characters other than a..z and 0..9, without a hyphen at the front or the end,
  cut to 50 characters.
\<close>

theorem createBrand_then_getBrand:
  assumes "fs_ok w" and "getBrand (generateId (d_name d)) w = None"
  shows "\<exists>b0 b. fst (createBrand d clk w) = Inr b0
           \<and> getBrand (generateId (d_name d)) (snd (createBrand d clk w)) = Some b
           \<and> b_name b = d_name d
           \<and> b_website b = stripTrailingSlash (stripProtocol (d_website d))
           \<and> b_id b = generateId (d_name d)
           \<and> generateId (d_name d) = slugOf (d_name d)"
  using assms
  by (simp add: createBrand_def setActiveBrand_def updateBrand_def writeYaml_def getBrand_def
      getConfig_def mergeBrand_def noUpdates_def Let_def generateId_slugOf)

text \<open>
  An instance on the empty store.
\<close>

theorem createBrand_then_getBrand_witness:
  "fs_ok freshWorld \<and> getBrand (generateId ''Acme Corp!'') freshWorld = None
   \<and> map_option b_name (getBrand ''acme-corp''
        (snd (createBrand (brandData ''Acme Corp!'' ''https://acme.com/'') clock0 freshWorld)))
       = Some ''Acme Corp!''
   \<and> map_option b_id (getBrand ''acme-corp''
        (snd (createBrand (brandData ''Acme Corp!'' ''https://acme.com/'') clock0 freshWorld)))
       = Some ''acme-corp''"
proof -
  have f: "fs_ok freshWorld" by (simp add: freshWorld_def)
  have i: "generateId ''Acme Corp!'' = ''acme-corp''"
    by (simp add: generateId_def trimHyphens_def isAlnum_def toLowerCase_def toLowerCase_char_def)
  have g: "getBrand (generateId (d_name (brandData ''Acme Corp!'' ''https://acme.com/''))) freshWorld = None"
    by (simp add: getBrand_def freshWorld_def brandData_def)
  have n: "d_name (brandData ''Acme Corp!'' ''https://acme.com/'') = ''Acme Corp!''"
    by (simp add: brandData_def)
  show ?thesis
    using f g createBrand_then_getBrand [OF f g, of clock0] i n by auto
qed

text \<open>
  C3 as stated fails: the website that is read back is not the website that was given
  when that has a protocol or a trailing slash.
\<close>

theorem createBrand_website_counterexample:
  "map_option b_website (getBrand ''acme-corp''
      (snd (createBrand (brandData ''Acme Corp!'' ''https://acme.com/'') clock0 freshWorld)))
     = Some ''acme.com''"
  by (simp add: createBrand_def setActiveBrand_def updateBrand_def writeYaml_def getBrand_def
      getConfig_def mergeBrand_def noUpdates_def Let_def brandData_def freshWorld_def
      generateId_def trimHyphens_def isAlnum_def toLowerCase_def toLowerCase_char_def
      stripProtocol_def stripTrailingSlash_def)

text \<open>
  The unfolding that evaluates a session on a concrete state.
\<close>

lemmas session_eval =
  beginSession_def finishSession_def setActiveBrand_def updateBrand_def writeYaml_def
  deleteFile_def getBrand_def getConfig_def mergeBrand_def noUpdates_def initLedger_def
  saveLedger_def getLedger_def loadLedger_def clearLedger_def startSession_def endSession_def
  saveSessionToHistory_def hasHandoff_def getHandoff_def clearHandoff_def createHandoff_def
  getSessionSummary_def idleSession_def Let_def

text \<open>
  C1 fails on the code: a session on a brand that has a handoff loads it at
  \<open>beginSession\<close>; \<open>finishSession\<close> then writes the new handoff and, since a handoff
  was loaded, calls \<open>clearHandoff\<close>, which deletes the file that now holds the new
  handoff. No handoff is left for the brand. On a brand without a handoff the same
  session leaves the new handoff in the store.
\<close>

theorem finishSession_deletes_new_handoff:
  "fr_success (fst (finishSession None clock1
      (snd (beginSession ''acme'' None clock0
              (acmeWorld\<lparr>handoff_files := [''acme'' \<mapsto> sampleHandoff]\<rparr>)))))
   \<and> getHandoff ''acme'' (snd (finishSession None clock1
      (snd (beginSession ''acme'' None clock0
              (acmeWorld\<lparr>handoff_files := [''acme'' \<mapsto> sampleHandoff]\<rparr>)))))
     = None
   \<and> map_option h_created (getHandoff ''acme'' (snd (finishSession None clock1
      (snd (beginSession ''acme'' None clock0 acmeWorld)))))
     = Some 1700000900000"
  by (simp add: session_eval acmeWorld_def freshWorld_def acmeBrand_def getTimestamp_def
      clock0_def clock1_def)

end
